theory Spec2Isabelle
  imports Main "HOL-Library.AList"
begin

section \<open>Python strings\<close>

text \<open>
  A Python \<open>str\<close> is modelled as a HOL \<open>string\<close> whose characters are code points
  below 256. Case mapping and \<open>isalpha\<close> are Python's on the ASCII range; a character
  outside that range is left unchanged by the case functions and is not alphabetic.
  Mission ids reach the functions below from the pattern \<open>GA_[A-Za-z0-9_]+\<close>, so they
  are ASCII.
\<close>

datatype py_error = IndexError | ValueError | KeyError | OtherError

definition is_upper :: "char \<Rightarrow> bool" where
  "is_upper c = (let n = (of_char c :: nat) in 65 \<le> n \<and> n \<le> 90)"

definition is_lower :: "char \<Rightarrow> bool" where
  "is_lower c = (let n = (of_char c :: nat) in 97 \<le> n \<and> n \<le> 122)"

definition is_digit :: "char \<Rightarrow> bool" where
  "is_digit c = (let n = (of_char c :: nat) in 48 \<le> n \<and> n \<le> 57)"

definition is_alpha :: "char \<Rightarrow> bool" where
  "is_alpha c = (is_upper c \<or> is_lower c)"

definition to_lower :: "char \<Rightarrow> char" where
  "to_lower c = (if is_upper c then char_of (of_char c + (32::nat)) else c)"

definition to_upper :: "char \<Rightarrow> char" where
  "to_upper c = (if is_lower c then char_of (of_char c - (32::nat)) else c)"

text \<open>\<open>s.lower()\<close>\<close>

definition lower :: "string \<Rightarrow> string" where
  "lower s = map to_lower s"

text \<open>\<open>s.isalpha()\<close>: every character is a letter and there is at least one.\<close>

definition isalpha :: "string \<Rightarrow> bool" where
  "isalpha s = (s \<noteq> [] \<and> list_all is_alpha s)"

text \<open>\<open>s.capitalize()\<close>: the first character upper-cased, the rest lower-cased.\<close>

fun capitalize :: "string \<Rightarrow> string" where
  "capitalize [] = []"
| "capitalize (c # cs) = to_upper c # lower cs"

text \<open>\<open>s.startswith(p)\<close>\<close>

fun startswith :: "string \<Rightarrow> string \<Rightarrow> bool" where
  "startswith s [] = True"
| "startswith [] (p # ps) = False"
| "startswith (c # cs) (p # ps) = (c = p \<and> startswith cs ps)"

text \<open>\<open>sub in s\<close>\<close>

fun contains :: "string \<Rightarrow> string \<Rightarrow> bool" where
  "contains [] sub = (sub = [])"
| "contains (c # cs) sub = (startswith (c # cs) sub \<or> contains cs sub)"

text \<open>\<open>s.split(d)\<close> for a one-character separator: never the empty list.\<close>

fun split_on :: "char \<Rightarrow> string \<Rightarrow> string list" where
  "split_on d [] = [[]]"
| "split_on d (c # cs) =
     (if c = d then [] # split_on d cs
      else (case split_on d cs of
              [] \<Rightarrow> [[c]]
            | p # ps \<Rightarrow> (c # p) # ps))"

text \<open>\<open>xs[-1]\<close>: raises IndexError on the empty list.\<close>

definition index_last :: "'a list \<Rightarrow> py_error + 'a" where
  "index_last xs = (case xs of [] \<Rightarrow> Inl IndexError | _ # _ \<Rightarrow> Inr (last xs))"

text \<open>
  \<open>s.replace(old, new)\<close>: the non-overlapping occurrences of \<open>old\<close>, found from the
  left, are replaced. For the empty \<open>old\<close> Python puts \<open>new\<close> before every character
  and at the end.
\<close>

function replace :: "string \<Rightarrow> string \<Rightarrow> string \<Rightarrow> string" where
  "replace old new s =
     (if old = [] then new @ concat (map (\<lambda>c. c # new) s)
      else if s = [] then []
      else if startswith s old then new @ replace old new (drop (length old) s)
      else hd s # replace old new (tl s))"
  by pat_completeness auto
termination
  by (relation "measure (\<lambda>(old, new, s). length s)") auto

declare replace.simps [simp del]

text \<open>\<open>sep.join(parts)\<close>\<close>

fun join :: "string \<Rightarrow> string list \<Rightarrow> string" where
  "join sep [] = []"
| "join sep [p] = p"
| "join sep (p # q # ps) = p @ sep @ join sep (q # ps)"

section \<open>Pattern catalog: mission names and tiers\<close>

text \<open>The dictionary literal of \<open>_get_complete_mission_mappings\<close>, in source order.\<close>

definition mission_mappings :: "(string \<times> string) list" where
  "mission_mappings =
    [(''GA_Airport_mis_01_SFPSACMission'', ''Airport Mission #1''),
     (''GA_Airport_mis_02_SFPSACMission'', ''Airport Mission #2''),
     (''GA_Airport_mis_03_SFPSACMission'', ''Airport Mission #3''),
     (''GA_Airport_mis_04_SFPSACMission'', ''Airport Mission #4''),
     (''GA_Beregovoy_Mis1'', ''Beregovoy Settlement Mission''),
     (''GA_Settle_05_ChernyLog_Mis1'', ''Cherny Log Settlement Mission''),
     (''GA_Settle_09_Mis_1'', ''Settlement Mission #9''),
     (''GA_Military_02_Mis1'', ''Military Base Mission #2''),
     (''GA_Military_03_Mis_01'', ''Military Base Mission #3''),
     (''GA_Military_04_Mis1'', ''Military Base Mission #4''),
     (''GA_Military_04_Mis_2'', ''Military Base Mission #4B''),
     (''GA_Ind_01_m1'', ''Industrial Zone Mission #1''),
     (''GA_Ind_02_Mis_1'', ''Industrial Zone Mission #2''),
     (''GA_PromZone_6_Mis_1'', ''Industrial Zone Mission #6''),
     (''GA_PromZone_Mis_01'', ''Industrial Zone Mission A''),
     (''GA_PromZone_Mis_02'', ''Industrial Zone Mission B''),
     (''GA_KhimMash_Mis_01'', ''Chemical Plant Mission #1''),
     (''GA_KhimMash_Mis_02'', ''Chemical Plant Mission #2''),
     (''GA_Kamensk_Ind_3_Mis_1'', ''Kamensk Industrial Mission''),
     (''GA_Kamensk_Mis_1'', ''Kamensk City Mission #1''),
     (''GA_Kamensk_Mis_2'', ''Kamensk City Mission #2''),
     (''GA_Kamensk_Mis_3'', ''Kamensk City Mission #3''),
     (''GA_Krasnoe_Mis_1'', ''Krasnoe City Mission''),
     (''GA_Vostok_Mis_1'', ''Vostok City Mission''),
     (''GA_Bunker_01_Mis1'', ''Underground Bunker Mission''),
     (''GA_Lighthouse_02_Mis1'', ''Lighthouse Mission #2''),
     (''GA_Elevator_Mis_1'', ''Elevator Complex Mission #1''),
     (''GA_Elevator_Mis_2'', ''Elevator Complex Mission #2''),
     (''GA_Sawmill_01_Mis1'', ''Sawmill Mission #1''),
     (''GA_Sawmill_02_1_Mis1'', ''Sawmill Mission #2A''),
     (''GA_Sawmill_03_Mis_01'', ''Sawmill Mission #3''),
     (''GA_Bochki_Mis_1'', ''Barrel Storage Mission''),
     (''GA_Dubovoe_0_Mis_1'', ''Dubovoe Resource Mission'')]"

text \<open>The f-string \<open>"<label> Mission ({mission_id.split('_')[-1]})"\<close> of the keyword fallbacks.\<close>

definition keyword_fallback :: "string \<Rightarrow> string \<Rightarrow> py_error + string" where
  "keyword_fallback label mission_id =
     (case index_last (split_on (CHR ''_'') mission_id) of
        Inl e \<Rightarrow> Inl e
      | Inr suffix \<Rightarrow> Inr (label @ '' Mission ('' @ suffix @ '')''))"

definition normalize_mission_name :: "string \<Rightarrow> py_error + string" where
  "normalize_mission_name mission_id =
     (case map_of mission_mappings mission_id of
        Some name \<Rightarrow> Inr name
      | None \<Rightarrow>
          if contains mission_id ''_Airport_'' then keyword_fallback ''Airport'' mission_id
          else if contains mission_id ''_Military_'' then keyword_fallback ''Military'' mission_id
          else if contains mission_id ''_Settle_'' then keyword_fallback ''Settlement'' mission_id
          else if contains mission_id ''_Ind_'' \<or> contains mission_id ''_PromZone_''
            then keyword_fallback ''Industrial'' mission_id
          else if contains mission_id ''_KhimMash_'' then keyword_fallback ''Chemical Plant'' mission_id
          else if contains mission_id ''_Bunker_'' then keyword_fallback ''Bunker'' mission_id
          else if contains mission_id ''_Sawmill_'' then keyword_fallback ''Sawmill'' mission_id
          else
            (let parts = split_on (CHR ''_'')
                           (replace ''_mis'' '''' (replace ''_Mis'' '''' (replace ''GA_'' '''' mission_id)));
                 readable_parts = map capitalize (filter isalpha parts)
             in if readable_parts \<noteq> [] then Inr (join '' '' readable_parts @ '' Mission'')
                else Inr (''Special Mission ('' @ mission_id @ '')'')))"

text \<open>\<open>any(keyword in mission_id.lower() for keyword in keywords)\<close>\<close>

definition any_keyword :: "string \<Rightarrow> string list \<Rightarrow> bool" where
  "any_keyword mission_id keywords = list_ex (\<lambda>keyword. contains (lower mission_id) keyword) keywords"

definition get_mission_level :: "string \<Rightarrow> int" where
  "get_mission_level mission_id =
     (if any_keyword mission_id [''military'', ''bunker'', ''khimmash''] then 5
      else if any_keyword mission_id [''airport'', ''promzone'', ''kamensk''] then 4
      else if any_keyword mission_id [''ind_'', ''industrial''] then 3
      else if any_keyword mission_id [''sawmill'', ''lighthouse'', ''elevator''] then 2
      else 1)"

section \<open>Integers as strings\<close>

text \<open>\<open>str(n)\<close> for an integer: decimal digits, with a leading minus sign below zero.\<close>

function digits :: "nat \<Rightarrow> string" where
  "digits n =
     (if n < 10 then [char_of (48 + n)]
      else digits (n div 10) @ [char_of (48 + n mod 10)])"
  by pat_completeness auto
termination
  by (relation "measure id") auto

declare digits.simps [simp del]

definition str_int :: "int \<Rightarrow> string" where
  "str_int i = (if i < 0 then CHR ''-'' # digits (nat (- i)) else digits (nat i))"

text \<open>\<open>int(s)\<close> on a string of decimal digits, as the pattern \<open>\d+\<close> delivers it.\<close>

definition py_int :: "string \<Rightarrow> int" where
  "py_int s = foldl (\<lambda>a c. 10 * a + (int (of_char c) - 48)) 0 s"

section \<open>Regular expressions of the pattern catalog\<close>

text \<open>
  The catalog's expressions are sequences of single-character classes, each taken once
  or under \<open>*\<close> or \<open>+\<close>, with capture groups around runs of them; there is no
  alternation and no nested repetition. \<open>m_here\<close> is the backtracking matcher of
  Python's \<open>re\<close> for this fragment: a repetition is greedy and gives characters back
  one at a time, and the captured groups are those of the first complete match found.
  \<open>re_search\<close> is \<open>pattern.search(line)\<close>: the leftmost start position that matches.
\<close>

datatype cclass =
    Lit char
  | Dot
  | Digit
  | Cls "(char \<times> char) list"
  | NCls "(char \<times> char) list"

datatype item = One cclass | Star cclass | Plus cclass | GOpen | GClose

text \<open>\<open>Pattern anchored ignorecase items\<close>: \<open>anchored\<close> is a leading \<open>^\<close>.\<close>

datatype pattern = Pattern bool bool "item list"

definition in_ranges :: "(char \<times> char) list \<Rightarrow> char \<Rightarrow> bool" where
  "in_ranges rs c =
     list_ex (\<lambda>(lo, hi). (of_char lo :: nat) \<le> of_char c \<and> (of_char c :: nat) \<le> of_char hi) rs"

fun cmatch :: "bool \<Rightarrow> cclass \<Rightarrow> char \<Rightarrow> bool" where
  "cmatch ic (Lit a) c = (if ic then to_lower a = to_lower c else a = c)"
| "cmatch ic Dot c = (c \<noteq> CHR 0x0A)"
| "cmatch ic Digit c = is_digit c"
| "cmatch ic (Cls rs) c =
     (in_ranges rs c \<or> (ic \<and> (in_ranges rs (to_lower c) \<or> in_ranges rs (to_upper c))))"
| "cmatch ic (NCls rs) c =
     (\<not> (in_ranges rs c \<or> (ic \<and> (in_ranges rs (to_lower c) \<or> in_ranges rs (to_upper c)))))"

fun m_here :: "bool \<Rightarrow> item list \<Rightarrow> string \<Rightarrow> string option \<Rightarrow> string list \<Rightarrow> string list option" where
  "m_here ic [] s g caps = Some caps"
| "m_here ic (One c # r) [] g caps = None"
| "m_here ic (One c # r) (x # xs) g caps =
     (if cmatch ic c x then m_here ic r xs g caps else None)"
| "m_here ic (Plus c # r) [] g caps = None"
| "m_here ic (Plus c # r) (x # xs) g caps =
     (if cmatch ic c x then m_here ic (Star c # r) xs g caps else None)"
| "m_here ic (Star c # r) [] g caps = m_here ic r [] g caps"
| "m_here ic (Star c # r) (x # xs) g caps =
     (if cmatch ic c x
      then (case m_here ic (Star c # r) xs g caps of
              Some res \<Rightarrow> Some res
            | None \<Rightarrow> m_here ic r (x # xs) g caps)
      else m_here ic r (x # xs) g caps)"
| "m_here ic (GOpen # r) s g caps = m_here ic r s (Some s) caps"
| "m_here ic (GClose # r) s None caps = None"
| "m_here ic (GClose # r) s (Some s0) caps =
     m_here ic r s None (caps @ [take (length s0 - length s) s0])"

fun search_from :: "bool \<Rightarrow> item list \<Rightarrow> string \<Rightarrow> string list option" where
  "search_from ic its [] = m_here ic its [] None []"
| "search_from ic its (x # xs) =
     (case m_here ic its (x # xs) None [] of
        Some caps \<Rightarrow> Some caps
      | None \<Rightarrow> search_from ic its xs)"

fun re_search :: "pattern \<Rightarrow> string \<Rightarrow> string list option" where
  "re_search (Pattern anchored ic its) s =
     (if anchored then m_here ic its s None [] else search_from ic its s)"

definition lit :: "string \<Rightarrow> item list" where
  "lit s = map (\<lambda>c. One (Lit c)) s"

text \<open>\<open>\d{k}\<close>\<close>

definition dig :: "nat \<Rightarrow> item list" where
  "dig k = replicate k (One Digit)"

text \<open>\<open>[A-Za-z0-9_]\<close>, \<open>[a-f0-9]\<close>, \<open>[A-Z_]\<close>, \<open>[^&\?]\<close>\<close>

definition word_class :: cclass where
  "word_class = Cls [(CHR ''A'', CHR ''Z''), (CHR ''a'', CHR ''z''), (CHR ''0'', CHR ''9''),
                     (CHR ''_'', CHR ''_'')]"

definition hex_class :: cclass where
  "hex_class = Cls [(CHR ''a'', CHR ''f''), (CHR ''0'', CHR ''9'')]"

definition state_class :: cclass where
  "state_class = Cls [(CHR ''A'', CHR ''Z''), (CHR ''_'', CHR ''_'')]"

definition name_class :: cclass where
  "name_class = NCls [(CHR ''&'', CHR ''&''), (CHR ''?'', CHR ''?'')]"

text \<open>\<open>(\d{4}\.\d{2}\.\d{2}-\d{2}\.\d{2}\.\d{2}\<close>, the opening of the two timestamp groups.\<close>

definition stamp :: "item list" where
  "stamp = [GOpen] @ dig 4 @ lit ''.'' @ dig 2 @ lit ''.'' @ dig 2 @ lit ''-'' @ dig 2 @
           lit ''.'' @ dig 2 @ lit ''.'' @ dig 2"

text \<open>\<open>LogSFPS: Mission (GA_[A-Za-z0-9_]+) switched to \<close> followed by a fixed state name.\<close>

definition mission_switched :: "string \<Rightarrow> pattern" where
  "mission_switched st = Pattern False True
     (lit ''LogSFPS: Mission '' @ [GOpen] @ lit ''GA_'' @ [Plus word_class, GClose] @
      lit '' switched to '' @ lit st)"

text \<open>The expressions of \<open>_compile_unified_patterns\<close>, each under the name of its key.\<close>

definition re_log_rotation :: pattern where
  "re_log_rotation = Pattern True False
     (lit ''Log file open, '' @ [GOpen] @ dig 2 @ lit ''/'' @ dig 2 @ lit ''/'' @ dig 2 @
      lit '' '' @ dig 2 @ lit '':'' @ dig 2 @ lit '':'' @ dig 2 @ [GClose])"

definition re_server_startup :: pattern where
  "re_server_startup = Pattern False False
     (lit ''LogWorld: Bringing World'' @ [Star Dot] @ lit ''up for play'' @ [Star Dot] @
      lit ''at '' @ stamp @ [GClose])"

definition re_world_loaded :: pattern where
  "re_world_loaded = Pattern False False
     (lit ''LogLoad: Took '' @ [Star Dot] @ lit '' seconds to LoadMap'' @ [Star Dot] @
      lit ''World_0'')"

definition re_server_max_players :: pattern where
  "re_server_max_players = Pattern False True
     (lit ''playersmaxcount='' @ [GOpen, Plus Digit, GClose])"

definition re_player_queue_join :: pattern where
  "re_player_queue_join = Pattern False True
     (lit ''LogNet: Join request: /Game/Maps/world_'' @ [Plus Digit] @ lit ''/World_'' @
      [Plus Digit] @ lit ''?'' @ [Star Dot] @ lit ''eosid=|'' @
      [GOpen, Plus hex_class, GClose, Star Dot] @ lit ''Name='' @
      [GOpen, Plus name_class, GClose])"

definition re_player_beacon_join :: pattern where
  "re_player_beacon_join = Pattern False True
     (lit ''LogBeacon: Beacon Join SFPSOnlineBeaconClient EOS:|'' @
      [GOpen, Plus hex_class, GClose])"

definition re_player_registered :: pattern where
  "re_player_registered = Pattern False True
     (lit ''LogOnline: Warning: Player |'' @ [GOpen, Plus hex_class, GClose] @
      lit '' successfully registered!'')"

definition re_player_disconnect :: pattern where
  "re_player_disconnect = Pattern False True
     (lit ''UChannel::Close: Sending CloseBunch'' @ [Star Dot] @ lit ''UniqueId: EOS:|'' @
      [GOpen, Plus hex_class, GClose])"

definition re_player_cleanup :: pattern where
  "re_player_cleanup = Pattern False True
     (lit ''UNetConnection::Close: Connection cleanup'' @ [Star Dot] @
      lit ''UniqueId: EOS:|'' @ [GOpen, Plus hex_class, GClose])"

definition re_mission_respawn :: pattern where
  "re_mission_respawn = Pattern False True
     (lit ''LogSFPS: Mission '' @ [GOpen] @ lit ''GA_'' @ [Plus word_class, GClose] @
      lit '' will respawn in '' @ [GOpen, Plus Digit, GClose])"

definition re_mission_state_change :: pattern where
  "re_mission_state_change = Pattern False True
     (lit ''LogSFPS: Mission '' @ [GOpen] @ lit ''GA_'' @ [Plus word_class, GClose] @
      lit '' switched to '' @ [GOpen, Plus state_class, GClose])"

definition re_mission_ready :: pattern where
  "re_mission_ready = mission_switched ''READY''"

definition re_mission_initial :: pattern where
  "re_mission_initial = mission_switched ''INITIAL''"

definition re_mission_in_progress :: pattern where
  "re_mission_in_progress = mission_switched ''IN_PROGRESS''"

definition re_mission_completed :: pattern where
  "re_mission_completed = mission_switched ''COMPLETED''"

definition re_vehicle_spawn :: pattern where
  "re_vehicle_spawn = Pattern False True
     (lit ''LogSFPS: [ASFPSGameMode::NewVehicle_Add] Add vehicle '' @ [GOpen] @
      lit ''BP_SFPSVehicle_'' @ [Plus word_class, GClose])"

definition re_vehicle_delete :: pattern where
  "re_vehicle_delete = Pattern False True
     (lit ''LogSFPS: [ASFPSGameMode::NewVehicle_Del] Del vehicle '' @ [GOpen] @
      lit ''BP_SFPSVehicle_'' @ [Plus word_class, GClose])"

definition re_timestamp :: pattern where
  "re_timestamp = Pattern False False
     (lit ''['' @ stamp @ lit '':'' @ dig 3 @ [GClose] @ lit '']'')"

text \<open>The dictionary \<open>self.patterns\<close>, in source order.\<close>

definition patterns :: "(string \<times> pattern) list" where
  "patterns =
    [(''log_rotation'', re_log_rotation),
     (''server_startup'', re_server_startup),
     (''world_loaded'', re_world_loaded),
     (''server_max_players'', re_server_max_players),
     (''player_queue_join'', re_player_queue_join),
     (''player_beacon_join'', re_player_beacon_join),
     (''player_registered'', re_player_registered),
     (''player_disconnect'', re_player_disconnect),
     (''player_cleanup'', re_player_cleanup),
     (''mission_respawn'', re_mission_respawn),
     (''mission_state_change'', re_mission_state_change),
     (''mission_ready'', re_mission_ready),
     (''mission_initial'', re_mission_initial),
     (''mission_in_progress'', re_mission_in_progress),
     (''mission_completed'', re_mission_completed),
     (''vehicle_spawn'', re_vehicle_spawn),
     (''vehicle_delete'', re_vehicle_delete),
     (''timestamp'', re_timestamp)]"

section \<open>Parser state\<close>

text \<open>
  A Python dictionary is an association list in insertion order: \<open>map_of\<close> reads it,
  \<open>AList.update\<close> is \<open>d[k] = v\<close> (an existing key keeps its place, a new one goes to
  the end), and deleting the keys that satisfy a test is a \<open>filter\<close>.
\<close>

type_synonym ('k, 'v) dict = "('k \<times> 'v) list"

text \<open>Timestamps (\<open>datetime.now(timezone.utc).isoformat()\<close>) are readings of a clock passed in.\<close>

type_synonym timestamp = nat

record file_state =
  line_count :: nat
  last_updated :: timestamp

record player_session =
  s_player_id :: string
  s_player_name :: string
  s_guild_id :: string
  s_joined_at :: timestamp
  s_status :: string
  s_left_at :: "timestamp option"

record lifecycle_data =
  l_name :: string
  l_queue_joined :: timestamp

text \<open>
  Modelled from the spec: \<open>EmbedFactory\<close> (\<open>bot/utils/embed_factory.py\<close>) is not among the
  sources. The spec treats rendering as an external collaborator that turns the
  arguments into a presentation-ready record, so an embed is the record of the arguments
  of the factory call, together with the footer set afterwards. Such an object is truthy.
  The pictographs that open the titles and the bullet of the footers lie outside the
  modelled character range and are left out of the texts.
\<close>

datatype embed =
    MissionEmbed string string string int string "int option" nat string
  | ConnectionEmbed string string string string nat string

definition create_mission_embed ::
  "string \<Rightarrow> string \<Rightarrow> string \<Rightarrow> int \<Rightarrow> string \<Rightarrow> int option \<Rightarrow> nat \<Rightarrow> py_error + embed" where
  "create_mission_embed title description mission_id level state respawn_time color =
     Inr (MissionEmbed title description mission_id level state respawn_time color [])"

definition create_connection_embed ::
  "string \<Rightarrow> string \<Rightarrow> string \<Rightarrow> string \<Rightarrow> nat \<Rightarrow> py_error + embed" where
  "create_connection_embed title description player_name player_id color =
     Inr (ConnectionEmbed title description player_name player_id color [])"

fun set_footer :: "embed \<Rightarrow> string \<Rightarrow> embed" where
  "set_footer (MissionEmbed t d m l st r c f) text = MissionEmbed t d m l st r c text"
| "set_footer (ConnectionEmbed t d n p c f) text = ConnectionEmbed t d n p c text"

text \<open>
  The order of the effects of a processing cycle is kept in a ghost field \<open>trace\<close>: a
  write of a file state, a call of \<open>_save_persistent_state\<close>, the start of pattern
  matching on a line, and an \<open>embeds.append\<close>.
\<close>

datatype action =
    WriteFileState string nat
  | SaveState
  | Scan string
  | Emit embed

text \<open>
  The dictionaries of \<open>__init__\<close>. A connection is a handle; \<open>closed_connections\<close> lists
  the handles on which \<open>close()\<close> was called. \<open>db_manager\<close> says whether the bot has a
  database manager, and \<open>persisted\<close> is the \<open>file_states\<close> of the document last written
  to the \<open>parser_state\<close> collection. \<open>safety_log\<close> lists the SAFETY BREAK reports
  given to \<open>logger.error\<close>, each with the number of events and the number of lines.
\<close>

record parser_state =
  last_log_position :: "(string, int) dict"
  log_file_hashes :: "(string, string) dict"
  player_sessions :: "(string, player_session) dict"
  server_status :: "(string, string) dict"
  sftp_connections :: "(string, nat) dict"
  file_states :: "(string, file_state) dict"
  player_lifecycle :: "(string, lifecycle_data) dict"
  closed_connections :: "nat list"
  db_manager :: bool
  persisted :: "(string, file_state) dict option"
  trace :: "action list"
  safety_log :: "(nat \<times> nat) list"

section \<open>Lines\<close>

text \<open>
  \<open>content.splitlines()\<close>: a line ends at \<open>\n\<close>, \<open>\r\<close>, \<open>\r\n\<close>, \<open>\v\<close>, \<open>\f\<close>,
  \<open>\x1c\<close>, \<open>\x1d\<close>, \<open>\x1e\<close> or \<open>\x85\<close>; the line ends are dropped and no empty
  line follows a final line end.
\<close>

definition is_linebreak :: "char \<Rightarrow> bool" where
  "is_linebreak c =
     (let n = (of_char c :: nat)
      in n = 10 \<or> n = 11 \<or> n = 12 \<or> n = 13 \<or> n = 28 \<or> n = 29 \<or> n = 30 \<or> n = 133)"

fun splitlines_from :: "string \<Rightarrow> string \<Rightarrow> string list" where
  "splitlines_from cur [] = (if cur = [] then [] else [cur])"
| "splitlines_from cur [c] = (if is_linebreak c then [cur] else [cur @ [c]])"
| "splitlines_from cur (c # d # cs) =
     (if c = CHR 0x0D \<and> d = CHR 0x0A then cur # splitlines_from [] cs
      else if is_linebreak c then cur # splitlines_from [] (d # cs)
      else splitlines_from (cur @ [c]) (d # cs))"

definition splitlines :: "string \<Rightarrow> string list" where
  "splitlines content = splitlines_from [] content"

section \<open>Event processing\<close>

definition process_mission_event ::
  "string \<Rightarrow> string \<Rightarrow> string \<Rightarrow> int option \<Rightarrow> embed option" where
  "process_mission_event guild_id mission_id state respawn_time =
     (case normalize_mission_name mission_id of
        Inl e \<Rightarrow> None
      | Inr normalized_name \<Rightarrow>
          (let mission_level = get_mission_level mission_id;
               made =
                 (if state = ''READY'' then
                    create_mission_embed ''Mission Available''
                      (''**'' @ normalized_name @ ''** is now available for completion'')
                      mission_id mission_level ''READY'' None 65280
                  else if state = ''IN_PROGRESS'' then
                    create_mission_embed ''Mission In Progress''
                      (''**'' @ normalized_name @ ''** is currently being completed'')
                      mission_id mission_level ''IN_PROGRESS'' None 16755200
                  else if state = ''COMPLETED'' then
                    create_mission_embed ''Mission Completed''
                      (''**'' @ normalized_name @ ''** has been completed successfully'')
                      mission_id mission_level ''COMPLETED'' None 39423
                  else if respawn_time \<noteq> None \<and> respawn_time \<noteq> Some 0 then
                    create_mission_embed ''Mission Respawning''
                      (''**'' @ normalized_name @ ''** will respawn in '' @
                         str_int (the respawn_time) @ '' seconds'')
                      mission_id mission_level ''RESPAWN'' respawn_time 8947848
                  else
                    create_mission_embed ''Mission Update''
                      (''**'' @ normalized_name @ ''** state: '' @ state)
                      mission_id mission_level state None 6710886)
           in case made of
                Inl e \<Rightarrow> None
              | Inr emb \<Rightarrow>
                  Some (set_footer emb ''Mission Event - Powered by Discord.gg/EmeraldServers'')))"

text \<open>\<open>update_voice_channel\<close> is a placeholder that does nothing.\<close>

definition update_voice_channel :: "string \<Rightarrow> parser_state \<Rightarrow> parser_state" where
  "update_voice_channel guild_id s = s"

definition connection_footer :: string where
  "connection_footer = ''Connection Event - Powered by Discord.gg/EmeraldServers''"

definition process_player_connection ::
  "string \<Rightarrow> string \<Rightarrow> string \<Rightarrow> string \<Rightarrow> timestamp \<Rightarrow> parser_state
     \<Rightarrow> embed option \<times> parser_state" where
  "process_player_connection guild_id player_id player_name event_type now s =
     (let session_key = guild_id @ ''_'' @ player_id
      in if event_type = ''joined'' then
           (let s1 = s\<lparr>player_sessions :=
                        AList.update session_key
                          \<lparr>s_player_id = player_id, s_player_name = player_name,
                           s_guild_id = guild_id, s_joined_at = now,
                           s_status = ''online'', s_left_at = None\<rparr>
                          (player_sessions s)\<rparr>;
                s2 = update_voice_channel guild_id s1
            in case create_connection_embed ''Player Connected''
                      (''**'' @ player_name @ ''** has joined the server'')
                      player_name player_id 65280 of
                 Inl e \<Rightarrow> (None, s2)
               | Inr emb \<Rightarrow> (Some (set_footer emb connection_footer), s2))
         else if event_type = ''disconnected'' then
           (let s1 = (case map_of (player_sessions s) session_key of
                        None \<Rightarrow> s
                      | Some sess \<Rightarrow>
                          s\<lparr>player_sessions :=
                              AList.update session_key
                                (sess\<lparr>s_status := ''offline'', s_left_at := Some now\<rparr>)
                                (player_sessions s)\<rparr>);
                s2 = update_voice_channel guild_id s1
            in case create_connection_embed ''Player Disconnected''
                      (''**'' @ player_name @ ''** has left the server'')
                      player_name player_id 16711680 of
                 Inl e \<Rightarrow> (None, s2)
               | Inr emb \<Rightarrow> (Some (set_footer emb connection_footer), s2))
         else (None, s))"

section \<open>Incremental line processing\<close>

text \<open>
  The state of the loop of \<open>parse_log_content\<close>: the list \<open>embeds\<close>, the counter
  \<open>processed_events\<close> and the parser state.
\<close>

type_synonym loop_state = "embed list \<times> nat \<times> parser_state"

text \<open>\<open>if embed: embeds.append(embed); processed_events += 1\<close>\<close>

definition append_embed :: "embed option \<Rightarrow> loop_state \<Rightarrow> loop_state" where
  "append_embed made st =
     (case made of
        None \<Rightarrow> st
      | Some e \<Rightarrow>
          (case st of
             (embeds, processed_events, s) \<Rightarrow>
               (embeds @ [e], processed_events + 1, s\<lparr>trace := trace s @ [Emit e]\<rparr>)))"

text \<open>\<open>logger.error("SAFETY BREAK: Generated {processed_events} events from {len(lines)} lines")\<close>\<close>

definition log_safety_break :: "nat \<Rightarrow> loop_state \<Rightarrow> loop_state" where
  "log_safety_break n st =
     (case st of
        (embeds, processed_events, s) \<Rightarrow>
          (embeds, processed_events, s\<lparr>safety_log := safety_log s @ [(processed_events, n)]\<rparr>))"

text \<open>
  The inner loop over \<open>self.patterns.items()\<close>. Its \<open>break\<close> leaves this loop only; an
  exception (the unpacking of \<open>match.groups()\<close>) leaves the whole line, and is returned
  with the state reached. \<open>n\<close> is \<open>len(lines)\<close> of the slice.
\<close>

fun mission_loop ::
  "string \<Rightarrow> nat \<Rightarrow> string \<Rightarrow> (string \<times> pattern) list \<Rightarrow> loop_state
     \<Rightarrow> py_error option \<times> loop_state" where
  "mission_loop guild_id n line [] st = (None, st)"
| "mission_loop guild_id n line ((pattern_name, pattern) # rest) st =
     (if startswith pattern_name ''mission_'' then
        (case re_search pattern line of
           None \<Rightarrow> mission_loop guild_id n line rest st
         | Some groups \<Rightarrow>
             if pattern_name = ''mission_respawn'' then
               (case groups of
                  [mission_id, respawn_time] \<Rightarrow>
                    (let st' = append_embed
                                 (process_mission_event guild_id mission_id ''RESPAWN''
                                    (Some (py_int respawn_time))) st
                     in if fst (snd st') > n * 2 then (None, log_safety_break n st')
                        else mission_loop guild_id n line rest st')
                | _ \<Rightarrow> (Some ValueError, st))
             else if pattern_name = ''mission_state_change'' then
               (case groups of
                  [mission_id, state] \<Rightarrow>
                    (let st' = append_embed
                                 (process_mission_event guild_id mission_id state None) st
                     in if fst (snd st') > n * 2 then (None, log_safety_break n st')
                        else mission_loop guild_id n line rest st')
                | _ \<Rightarrow> (Some ValueError, st))
             else mission_loop guild_id n line rest st)
      else mission_loop guild_id n line rest st)"

text \<open>The three player sections of the loop body.\<close>

definition queue_join_section ::
  "string \<Rightarrow> timestamp \<Rightarrow> string \<Rightarrow> loop_state \<Rightarrow> py_error option \<times> loop_state" where
  "queue_join_section guild_id now line st =
     (case map_of patterns ''player_queue_join'' of
        None \<Rightarrow> (Some KeyError, st)
      | Some pattern \<Rightarrow>
          (case re_search pattern line of
             None \<Rightarrow> (None, st)
           | Some groups \<Rightarrow>
               (case groups of
                  [player_id, player_name] \<Rightarrow>
                    (case st of
                       (embeds, processed_events, s) \<Rightarrow>
                         (None, embeds, processed_events,
                          s\<lparr>player_lifecycle :=
                              AList.update (guild_id @ ''_'' @ player_id)
                                \<lparr>l_name = player_name, l_queue_joined = now\<rparr>
                                (player_lifecycle s)\<rparr>))
                | _ \<Rightarrow> (Some ValueError, st))))"

definition registered_section ::
  "string \<Rightarrow> timestamp \<Rightarrow> string \<Rightarrow> loop_state \<Rightarrow> py_error option \<times> loop_state" where
  "registered_section guild_id now line st =
     (case map_of patterns ''player_registered'' of
        None \<Rightarrow> (Some KeyError, st)
      | Some pattern \<Rightarrow>
          (case re_search pattern line of
             None \<Rightarrow> (None, st)
           | Some groups \<Rightarrow>
               (case groups of
                  [] \<Rightarrow> (Some IndexError, st)
                | player_id # _ \<Rightarrow>
                    (case st of
                       (embeds, processed_events, s) \<Rightarrow>
                         (let player_key = guild_id @ ''_'' @ player_id;
                              player_name =
                                (case map_of (player_lifecycle s) player_key of
                                   None \<Rightarrow> ''Unknown Player''
                                 | Some lc \<Rightarrow> l_name lc);
                              r = process_player_connection guild_id player_id player_name
                                    ''joined'' now s
                          in (None, append_embed (fst r) (embeds, processed_events, snd r)))))))"

definition disconnect_section ::
  "string \<Rightarrow> timestamp \<Rightarrow> string \<Rightarrow> loop_state \<Rightarrow> py_error option \<times> loop_state" where
  "disconnect_section guild_id now line st =
     (case map_of patterns ''player_disconnect'' of
        None \<Rightarrow> (Some KeyError, st)
      | Some pattern \<Rightarrow>
          (case re_search pattern line of
             None \<Rightarrow> (None, st)
           | Some groups \<Rightarrow>
               (case groups of
                  [] \<Rightarrow> (Some IndexError, st)
                | player_id # _ \<Rightarrow>
                    (case st of
                       (embeds, processed_events, s) \<Rightarrow>
                         (let player_key = guild_id @ ''_'' @ player_id;
                              session_key = guild_id @ ''_'' @ player_id;
                              player_name =
                                (case map_of (player_sessions s) session_key of
                                   Some sess \<Rightarrow> s_player_name sess
                                 | None \<Rightarrow>
                                     (case map_of (player_lifecycle s) player_key of
                                        None \<Rightarrow> ''Unknown Player''
                                      | Some lc \<Rightarrow> l_name lc));
                              r = process_player_connection guild_id player_id player_name
                                    ''disconnected'' now s
                          in (None, append_embed (fst r) (embeds, processed_events, snd r)))))))"

text \<open>Sequencing inside the \<open>try\<close> block: a raised exception skips what follows.\<close>

definition and_then ::
  "py_error option \<times> loop_state \<Rightarrow> (loop_state \<Rightarrow> py_error option \<times> loop_state)
     \<Rightarrow> py_error option \<times> loop_state" where
  "and_then r f = (case r of (Some e, st) \<Rightarrow> (Some e, st) | (None, st) \<Rightarrow> f st)"

text \<open>
  One pass of the loop body for a line. The result says whether the outer loop breaks
  (the safety check after the line); after an exception the loop continues with the
  next line.
\<close>

definition process_line ::
  "string \<Rightarrow> nat \<Rightarrow> timestamp \<Rightarrow> string \<Rightarrow> loop_state \<Rightarrow> bool \<times> loop_state" where
  "process_line guild_id n now line st =
     (case st of
        (embeds, processed_events, s) \<Rightarrow>
          (let st0 = (embeds, processed_events, s\<lparr>trace := trace s @ [Scan line]\<rparr>);
               r = and_then (and_then (and_then
                     (mission_loop guild_id n line patterns st0)
                     (queue_join_section guild_id now line))
                     (registered_section guild_id now line))
                     (disconnect_section guild_id now line)
           in case r of
                (Some e, st') \<Rightarrow> (False, st')
              | (None, st') \<Rightarrow>
                  if fst (snd st') > n * 2 then (True, log_safety_break n st')
                  else (False, st')))"

fun process_lines ::
  "string \<Rightarrow> nat \<Rightarrow> timestamp \<Rightarrow> string list \<Rightarrow> loop_state \<Rightarrow> loop_state" where
  "process_lines guild_id n now [] st = st"
| "process_lines guild_id n now (line # rest) st =
     (case process_line guild_id n now line st of
        (True, st') \<Rightarrow> st'
      | (False, st') \<Rightarrow> process_lines guild_id n now rest st')"

text \<open>
  \<open>_save_persistent_state\<close>: with a database manager the whole \<open>file_states\<close> map
  replaces the stored document. A failing write is logged and changes nothing else; the
  write is modelled as succeeding.
\<close>

definition save_persistent_state :: "parser_state \<Rightarrow> parser_state" where
  "save_persistent_state s =
     (let s1 = s\<lparr>trace := trace s @ [SaveState]\<rparr>
      in if db_manager s1 then s1\<lparr>persisted := Some (file_states s1)\<rparr> else s1)"

text \<open>\<open>stored_state.get('line_count', 0)\<close> of \<open>self.file_states.get(server_key, {})\<close>\<close>

definition stored_line_count :: "parser_state \<Rightarrow> string \<Rightarrow> nat" where
  "stored_line_count s server_key =
     (case map_of (file_states s) server_key of None \<Rightarrow> 0 | Some fs \<Rightarrow> line_count fs)"

text \<open>The part of \<open>parse_log_content\<close> after the choice of the lines to process.\<close>

definition write_and_extract ::
  "string \<Rightarrow> string \<Rightarrow> nat \<Rightarrow> timestamp \<Rightarrow> string list \<Rightarrow> parser_state
     \<Rightarrow> embed list \<times> parser_state" where
  "write_and_extract guild_id server_key total_lines now lines s =
     (let s1 = s\<lparr>file_states :=
                  AList.update server_key
                    \<lparr>line_count = total_lines, last_updated = now\<rparr> (file_states s),
                trace := trace s @ [WriteFileState server_key total_lines]\<rparr>;
          s2 = save_persistent_state s1;
          st = process_lines guild_id (length lines) now lines ([], 0, s2)
      in (fst st, snd (snd st)))"

definition parse_log_content ::
  "string \<Rightarrow> string \<Rightarrow> string \<Rightarrow> timestamp \<Rightarrow> parser_state \<Rightarrow> embed list \<times> parser_state" where
  "parse_log_content content guild_id server_id now s =
     (let lines = splitlines content;
          total_lines = length lines;
          server_key = guild_id @ ''_'' @ server_id;
          last_processed = stored_line_count s server_key
      in if last_processed > 0 \<and> last_processed < total_lines then
           write_and_extract guild_id server_key total_lines now (drop last_processed lines) s
         else if last_processed \<ge> total_lines then ([], s)
         else write_and_extract guild_id server_key total_lines now lines s)"

text \<open>\<open>_process_cold_start\<close>: the first mission pattern that matches a line is counted.\<close>

fun cold_pattern_loop :: "string \<Rightarrow> (string \<times> pattern) list \<Rightarrow> nat \<Rightarrow> nat" where
  "cold_pattern_loop line [] events_parsed = events_parsed"
| "cold_pattern_loop line ((pattern_name, pattern) # rest) events_parsed =
     (if startswith pattern_name ''mission_'' then
        (case re_search pattern line of
           Some groups \<Rightarrow> events_parsed + 1
         | None \<Rightarrow> cold_pattern_loop line rest events_parsed)
      else cold_pattern_loop line rest events_parsed)"

fun cold_lines :: "string list \<Rightarrow> nat \<times> parser_state \<Rightarrow> nat \<times> parser_state" where
  "cold_lines [] st = st"
| "cold_lines (line # rest) (events_parsed, s) =
     cold_lines rest
       (cold_pattern_loop line patterns events_parsed, s\<lparr>trace := trace s @ [Scan line]\<rparr>)"

definition process_cold_start ::
  "string \<Rightarrow> string \<Rightarrow> string \<Rightarrow> timestamp \<Rightarrow> parser_state \<Rightarrow> nat \<times> parser_state" where
  "process_cold_start content guild_id server_id now s =
     (let lines = splitlines content;
          total_lines = length lines;
          st = cold_lines lines (0, s);
          s1 = snd st;
          server_key = guild_id @ ''_'' @ server_id;
          s2 = s1\<lparr>file_states :=
                   AList.update server_key
                     \<lparr>line_count = total_lines, last_updated = now\<rparr> (file_states s1),
                 trace := trace s1 @ [WriteFileState server_key total_lines]\<rparr>
      in (fst st, save_persistent_state s2))"

text \<open>
  \<open>parse_server_logs\<close> from the point where the log file has been read: \<open>content\<close> is
  what the remote read returned. The result lists the embeds handed to
  \<open>send_log_embeds\<close>.
\<close>

definition parse_server_logs ::
  "int \<Rightarrow> string \<Rightarrow> string \<Rightarrow> timestamp \<Rightarrow> parser_state \<Rightarrow> embed list \<times> parser_state" where
  "parse_server_logs guild_id server_id content now s =
     (if content \<noteq> [] then
        (let server_key = str_int guild_id @ ''_'' @ server_id;
             last_processed = stored_line_count s server_key;
             is_warm_start = last_processed > 0
         in if \<not> is_warm_start then
              ([], snd (process_cold_start content (str_int guild_id) server_id now s))
            else parse_log_content content (str_int guild_id) server_id now s)
      else ([], s))"

section \<open>Tenant cleanup\<close>




section \<open>Event router\<close>

text \<open>
  The tenant document as \<open>get_server_channel\<close> reads it: the keys \<open>server_channels\<close> and
  \<open>channels\<close>, each possibly absent, and whether the document has any other key. A channel
  id is an integer; a stored \<open>None\<close> reads like an absent key.
\<close>

record guild_config =
  server_channels :: "(string, (string, int) dict) dict option"
  channels :: "(string, int) dict option"
  other_keys :: bool

text \<open>\<open>if not guild_config\<close>: an empty dictionary is falsy.\<close>

definition config_truthy :: "guild_config \<Rightarrow> bool" where
  "config_truthy cfg = (server_channels cfg \<noteq> None \<or> channels cfg \<noteq> None \<or> other_keys cfg)"

text \<open>\<open>d.get(key, {})\<close>\<close>

definition get_or_empty :: "('k, 'v) dict option \<Rightarrow> ('k, 'v) dict" where
  "get_or_empty d = (case d of None \<Rightarrow> [] | Some m \<Rightarrow> m)"

text \<open>
  \<open>channel_id = server_channels[key].get(channel_type)\<close> under \<open>if key in server_channels\<close>,
  followed by \<open>if channel_id\<close>: the entry counts only when it is truthy, that is not 0.
\<close>

definition truthy_entry ::
  "(string, (string, int) dict) dict \<Rightarrow> string \<Rightarrow> string \<Rightarrow> int option" where
  "truthy_entry sc key channel_type =
     (case map_of sc key of
        None \<Rightarrow> None
      | Some chans \<Rightarrow>
          (case map_of chans channel_type of
             None \<Rightarrow> None
           | Some channel_id \<Rightarrow> if channel_id \<noteq> 0 then Some channel_id else None))"

text \<open>
  \<open>get_guild\<close> is \<open>self.bot.db_manager.get_guild\<close>: it returns a document or \<open>None\<close>, or
  raises. Every exception ends in \<open>return None\<close>.
\<close>

definition get_server_channel ::
  "(int \<Rightarrow> py_error + guild_config option) \<Rightarrow> int \<Rightarrow> string \<Rightarrow> string \<Rightarrow> int option" where
  "get_server_channel get_guild guild_id server_id channel_type =
     (case get_guild guild_id of
        Inl e \<Rightarrow> None
      | Inr None \<Rightarrow> None
      | Inr (Some cfg) \<Rightarrow>
          if \<not> config_truthy cfg then None
          else
            (let sc = get_or_empty (server_channels cfg)
             in case truthy_entry sc server_id channel_type of
                  Some channel_id \<Rightarrow> Some channel_id
                | None \<Rightarrow>
                    (case truthy_entry sc ''default'' channel_type of
                       Some channel_id \<Rightarrow> Some channel_id
                     | None \<Rightarrow> map_of (get_or_empty (channels cfg)) channel_type)))"

section \<open>Initial state and readings of the trace\<close>

text \<open>The state built by \<open>__init__\<close>: every dictionary empty.\<close>

definition init_state :: "bool \<Rightarrow> parser_state" where
  "init_state db =
     \<lparr>last_log_position = [], log_file_hashes = [], player_sessions = [],
      server_status = [], sftp_connections = [], file_states = [], player_lifecycle = [],
      closed_connections = [], db_manager = db, persisted = None, trace = [],
      safety_log = []\<rparr>"

text \<open>The lines scanned and the embeds appended, in the order of a trace.\<close>

fun scans :: "action list \<Rightarrow> string list" where
  "scans [] = []"
| "scans (Scan l # tr) = l # scans tr"
| "scans (a # tr) = scans tr"

fun emits :: "action list \<Rightarrow> embed list" where
  "emits [] = []"
| "emits (Emit e # tr) = e # emits tr"
| "emits (a # tr) = emits tr"

text \<open>The trace of scanning lines one after the other, each followed by its embeds.\<close>

fun blocks :: "(string \<times> embed list) list \<Rightarrow> action list" where
  "blocks [] = []"
| "blocks ((l, es) # bs) = Scan l # map Emit es @ blocks bs"

section \<open>Notions for the analysis of the line loop\<close>

text \<open>The embeds that an optional embed contributes.\<close>

definition opt_list :: "'a option \<Rightarrow> 'a list" where
  "opt_list x = (case x of None \<Rightarrow> [] | Some e \<Rightarrow> [e])"

text \<open>A step of the loop that appends the embeds \<open>new\<close> and leaves the file states and the
  persisted document alone.\<close>

definition extends :: "loop_state \<Rightarrow> embed list \<Rightarrow> loop_state \<Rightarrow> bool" where
  "extends st new st' =
     (fst st' = fst st @ new \<and> fst (snd st') = fst (snd st) + length new \<and>
      trace (snd (snd st')) = trace (snd (snd st)) @ map Emit new \<and>
      file_states (snd (snd st')) = file_states (snd (snd st)) \<and>
      persisted (snd (snd st')) = persisted (snd (snd st)))"

text \<open>The number of capture groups of a pattern.\<close>

fun ngroups :: "pattern \<Rightarrow> nat" where
  "ngroups (Pattern anchored ic its) = length (filter (\<lambda>i. i = GClose) its)"

text \<open>One if the pattern is found in the line, zero otherwise.\<close>

definition matches :: "pattern \<Rightarrow> string \<Rightarrow> nat" where
  "matches p line = (if re_search p line = None then 0 else 1)"

text \<open>How many of the four patterns that lead to an \<open>embeds.append\<close> are found in a line.\<close>

definition emitting_matches :: "string \<Rightarrow> nat" where
  "emitting_matches line =
     matches re_mission_respawn line + matches re_mission_state_change line +
     matches re_player_registered line + matches re_player_disconnect line"

text \<open>The effect of the \<open>mission_respawn\<close> branch of the inner loop on a line.\<close>

definition respawn_step :: "string \<Rightarrow> string \<Rightarrow> loop_state \<Rightarrow> loop_state" where
  "respawn_step g line st =
     (case re_search re_mission_respawn line of
        None \<Rightarrow> st
      | Some gs \<Rightarrow>
          append_embed (process_mission_event g (gs ! 0) ''RESPAWN'' (Some (py_int (gs ! 1)))) st)"

text \<open>The effect of the \<open>mission_state_change\<close> branch of the inner loop on a line.\<close>

definition change_step :: "string \<Rightarrow> string \<Rightarrow> loop_state \<Rightarrow> loop_state" where
  "change_step g line st =
     (case re_search re_mission_state_change line of
        None \<Rightarrow> st
      | Some gs \<Rightarrow> append_embed (process_mission_event g (gs ! 0) (gs ! 1) None) st)"

section \<open>Example log lines\<close>

text \<open>A line in which all four emitting patterns are found.\<close>

definition burst_line :: string where
  "burst_line = ''LogSFPS: Mission GA_a will respawn in 1 LogSFPS: Mission GA_a switched to X LogOnline: Warning: Player |a successfully registered! UChannel::Close: Sending CloseBunch. UniqueId: EOS:|a''"

text \<open>A mission line, a queue-join line and a registration line.\<close>

definition ready_line :: string where
  "ready_line = ''LogSFPS: Mission GA_a switched to READY''"

definition join_line :: string where
  "join_line = ''LogNet: Join request: /Game/Maps/world_0/World_0?eosid=|ab?Name=Alice''"

definition registered_line :: string where
  "registered_line = ''LogOnline: Warning: Player |ab successfully registered!''"

text \<open>Contents of a log file made of these lines.\<close>

definition tracking_content :: string where
  "tracking_content = join_line @ [CHR 0x0A] @ registered_line"

definition burst_content :: string where
  "burst_content = ''x'' @ [CHR 0x0A] @ burst_line"

definition starved_content :: string where
  "starved_content =
     ''x'' @ [CHR 0x0A] @ burst_line @ [CHR 0x0A] @ burst_line @ [CHR 0x0A] @ ready_line"

definition ready_content :: string where
  "ready_content = ready_line @ [CHR 0x0A] @ ready_line"

section \<open>Facts about the string functions\<close>

lemma startswith_iff: "startswith s p \<longleftrightarrow> (\<exists>r. s = p @ r)"
  by (induction s p rule: startswith.induct) auto

lemma contains_iff: "contains s sub \<longleftrightarrow> (\<exists>a b. s = a @ sub @ b)"
proof (induction s)
  case Nil
  then show ?case by auto
next
  case (Cons c cs)
  show ?case
  proof
    assume "contains (c # cs) sub"
    then consider "startswith (c # cs) sub" | "contains cs sub" by auto
    then show "\<exists>a b. c # cs = a @ sub @ b"
    proof cases
      case 1
      then obtain r where "c # cs = sub @ r" by (auto simp: startswith_iff)
      then have "c # cs = [] @ sub @ r" by simp
      then show ?thesis by blast
    next
      case 2
      then obtain a b where "cs = a @ sub @ b" using Cons.IH by blast
      then have "c # cs = (c # a) @ sub @ b" by simp
      then show ?thesis by blast
    qed
  next
    assume "\<exists>a b. c # cs = a @ sub @ b"
    then obtain a b where ab: "c # cs = a @ sub @ b" by blast
    show "contains (c # cs) sub"
    proof (cases a)
      case Nil
      with ab have "startswith (c # cs) sub" by (auto simp: startswith_iff)
      then show ?thesis by simp
    next
      case (Cons x a')
      with ab have "cs = a' @ sub @ b" by simp
      then have "contains cs sub" using Cons.IH by blast
      then show ?thesis by simp
    qed
  qed
qed

lemma contains_appendI: "contains (a @ sub @ b) sub"
  by (auto simp: contains_iff)

lemma contains_lower:
  assumes "contains s sub" and "lower sub = sub"
  shows "contains (lower s) sub"
proof -
  from assms(1) obtain a b where "s = a @ sub @ b" by (auto simp: contains_iff)
  then have "lower s = lower a @ sub @ lower b"
    using assms(2) by (simp add: lower_def)
  then show ?thesis by (simp add: contains_appendI)
qed

lemma split_on_nonempty: "split_on d s \<noteq> []"
  by (induction s) (auto split: list.splits)

lemma index_last_split_on: "\<exists>t. index_last (split_on d s) = Inr t"
  using split_on_nonempty [of d s] by (cases "split_on d s") (auto simp: index_last_def)

lemma keyword_fallback_ok:
  "\<exists>name. keyword_fallback label mission_id = Inr name \<and> name \<noteq> [] \<and> contains name ''Mission''"
proof -
  obtain t where t: "index_last (split_on (CHR ''_'') mission_id) = Inr t"
    using index_last_split_on by blast
  have "contains ((label @ '' '') @ ''Mission'' @ ('' ('' @ t @ '')'')) ''Mission''"
    by (rule contains_appendI)
  then show ?thesis using t by (simp add: keyword_fallback_def)
qed

lemma mission_mappings_values:
  "list_all (\<lambda>(k, v). v \<noteq> [] \<and> contains v ''Mission'') mission_mappings"
  unfolding mission_mappings_def by code_simp

lemma mission_mappings_hit:
  assumes "map_of mission_mappings mission_id = Some name"
  shows "name \<noteq> [] \<and> contains name ''Mission''"
proof -
  from assms have "(mission_id, name) \<in> set mission_mappings" by (rule map_of_SomeD)
  with mission_mappings_values show ?thesis by (auto simp: list_all_iff)
qed

lemma lower_keywords:
  "lower ''bunker'' = ''bunker''" "lower ''sawmill'' = ''sawmill''"
  by code_simp+

section \<open>Claims about the pattern catalog\<close>

lemma normalize_mission_name_ok:
  "\<exists>name. normalize_mission_name mission_id = Inr name \<and> name \<noteq> [] \<and> contains name ''Mission''"
proof (cases "map_of mission_mappings mission_id")
  case (Some name)
  then show ?thesis
    using mission_mappings_hit [OF Some] by (simp add: normalize_mission_name_def)
next
  case None
  have words: "contains ((w @ '' '') @ ''Mission'' @ []) ''Mission''" for w
    by (rule contains_appendI)
  have special: "contains (''Special '' @ ''Mission'' @ ('' ('' @ mission_id @ '')'')) ''Mission''"
    by (rule contains_appendI)
  show ?thesis
    using None keyword_fallback_ok words special
    by (simp add: normalize_mission_name_def Let_def)
qed

text \<open>
  C10. Mission-name normalisation is total: for every input string
  \<open>normalize_mission_name\<close> raises nothing and returns a non-empty string that contains
  the substring \<open>Mission\<close>, whichever of the four routes (catalog hit, keyword fallback,
  title-cased tokens, Special Mission) produced it.
\<close>

theorem normalize_mission_name_total:
  "\<exists>name. normalize_mission_name mission_id = Inr name \<and> name \<noteq> [] \<and> contains name ''Mission''"
  by (rule normalize_mission_name_ok)

theorem normalize_mission_name_total_witness:
  "\<exists>name. normalize_mission_name ''GA_Military_99_Foo'' = Inr name \<and> name \<noteq> []
     \<and> contains name ''Mission''"
  by (rule normalize_mission_name_total)

text \<open>
  C8 as stated fails: an id that contains \<open>sawmill\<close> and also a keyword of a higher
  tier is classified by the higher tier, since the first matching rule wins.
\<close>

theorem get_mission_level_sawmill_counterexample:
  "contains ''GA_military_sawmill_1'' ''sawmill'' \<and>
   get_mission_level ''GA_military_sawmill_1'' = 5 \<and>
   get_mission_level ''GA_military_sawmill_1'' \<noteq> 2"
  by code_simp

text \<open>
  C8, amended. \<open>get_mission_level\<close> tests the lower-cased id against four keyword lists in
  the fixed order military/bunker/khimmash (5), airport/promzone/kamensk (4),
  ind_/industrial (3), sawmill/lighthouse/elevator (2), and the first list with a keyword
  in the id decides; with no keyword the tier is 1. Hence every id containing
  \<open>bunker\<close> has tier 5, every id containing \<open>sawmill\<close> and no keyword of the three
  higher lists has tier 2, and every id with none of the keywords has tier 1.
\<close>

theorem get_mission_level_priority:
  "(contains mission_id ''bunker'' \<longrightarrow> get_mission_level mission_id = 5) \<and>
   (contains mission_id ''sawmill''
      \<and> \<not> any_keyword mission_id [''military'', ''bunker'', ''khimmash'']
      \<and> \<not> any_keyword mission_id [''airport'', ''promzone'', ''kamensk'']
      \<and> \<not> any_keyword mission_id [''ind_'', ''industrial'']
      \<longrightarrow> get_mission_level mission_id = 2) \<and>
   (\<not> any_keyword mission_id [''military'', ''bunker'', ''khimmash'']
      \<and> \<not> any_keyword mission_id [''airport'', ''promzone'', ''kamensk'']
      \<and> \<not> any_keyword mission_id [''ind_'', ''industrial'']
      \<and> \<not> any_keyword mission_id [''sawmill'', ''lighthouse'', ''elevator'']
      \<longrightarrow> get_mission_level mission_id = 1) \<and>
   (any_keyword mission_id [''military'', ''bunker'', ''khimmash'']
      \<longrightarrow> get_mission_level mission_id = 5) \<and>
   (\<not> any_keyword mission_id [''military'', ''bunker'', ''khimmash'']
      \<and> any_keyword mission_id [''airport'', ''promzone'', ''kamensk'']
      \<longrightarrow> get_mission_level mission_id = 4) \<and>
   (\<not> any_keyword mission_id [''military'', ''bunker'', ''khimmash'']
      \<and> \<not> any_keyword mission_id [''airport'', ''promzone'', ''kamensk'']
      \<and> any_keyword mission_id [''ind_'', ''industrial'']
      \<longrightarrow> get_mission_level mission_id = 3) \<and>
   (\<not> any_keyword mission_id [''military'', ''bunker'', ''khimmash'']
      \<and> \<not> any_keyword mission_id [''airport'', ''promzone'', ''kamensk'']
      \<and> \<not> any_keyword mission_id [''ind_'', ''industrial'']
      \<and> any_keyword mission_id [''sawmill'', ''lighthouse'', ''elevator'']
      \<longrightarrow> get_mission_level mission_id = 2)"
proof -
  have bunker: "any_keyword mission_id [''military'', ''bunker'', ''khimmash'']"
    if "contains mission_id ''bunker''"
    using contains_lower [OF that lower_keywords(1)] by (simp add: any_keyword_def)
  have sawmill: "any_keyword mission_id [''sawmill'', ''lighthouse'', ''elevator'']"
    if "contains mission_id ''sawmill''"
    using contains_lower [OF that lower_keywords(2)] by (simp add: any_keyword_def)
  show ?thesis
    using bunker sawmill unfolding get_mission_level_def by auto
qed

theorem get_mission_level_priority_witness:
  "get_mission_level ''GA_bunker_sawmill'' = 5 \<and>
   get_mission_level ''GA_sawmill_02'' = 2 \<and>
   get_mission_level ''GA_Bochki_Mis_1'' = 1"
proof -
  have h1: "contains ''GA_bunker_sawmill'' ''bunker''" by code_simp
  have h2: "contains ''GA_sawmill_02'' ''sawmill''
      \<and> \<not> any_keyword ''GA_sawmill_02'' [''military'', ''bunker'', ''khimmash'']
      \<and> \<not> any_keyword ''GA_sawmill_02'' [''airport'', ''promzone'', ''kamensk'']
      \<and> \<not> any_keyword ''GA_sawmill_02'' [''ind_'', ''industrial'']" by code_simp
  have h3: "\<not> any_keyword ''GA_Bochki_Mis_1'' [''military'', ''bunker'', ''khimmash'']
      \<and> \<not> any_keyword ''GA_Bochki_Mis_1'' [''airport'', ''promzone'', ''kamensk'']
      \<and> \<not> any_keyword ''GA_Bochki_Mis_1'' [''ind_'', ''industrial'']
      \<and> \<not> any_keyword ''GA_Bochki_Mis_1'' [''sawmill'', ''lighthouse'', ''elevator'']"
    by code_simp
  note p1 = get_mission_level_priority [of "''GA_bunker_sawmill''"]
  note p2 = get_mission_level_priority [of "''GA_sawmill_02''"]
  note p3 = get_mission_level_priority [of "''GA_Bochki_Mis_1''"]
  have a: "get_mission_level ''GA_bunker_sawmill'' = 5"
    by (rule mp [OF conjunct1 [OF p1] h1])
  have b: "get_mission_level ''GA_sawmill_02'' = 2"
    by (rule mp [OF conjunct1 [OF conjunct2 [OF p2]] h2])
  have c: "get_mission_level ''GA_Bochki_Mis_1'' = 1"
    by (rule mp [OF conjunct1 [OF conjunct2 [OF conjunct2 [OF p3]]] h3])
  from a b c show ?thesis by (intro conjI)
qed

section \<open>Evaluation of characters\<close>

lemma to_lower_Char:
  "to_lower (Char b0 b1 b2 b3 b4 b5 b6 b7) =
     Char b0 b1 b2 b3 b4
       (b5 \<or> (b6 \<and> \<not> b7 \<and> (b0 \<or> b1 \<or> b2 \<or> b3 \<or> b4)
               \<and> \<not> (b4 \<and> b3 \<and> (b2 \<or> (b1 \<and> b0)))))
       b6 b7"
  by (cases b0; cases b1; cases b2; cases b3; cases b4; cases b5; cases b6; cases b7)
     (simp_all add: to_lower_def is_upper_def char_of_def bit_Suc_0_iff)

lemma to_upper_Char:
  "to_upper (Char b0 b1 b2 b3 b4 b5 b6 b7) =
     Char b0 b1 b2 b3 b4
       (b5 \<and> \<not> (b6 \<and> \<not> b7 \<and> (b0 \<or> b1 \<or> b2 \<or> b3 \<or> b4)
                 \<and> \<not> (b4 \<and> b3 \<and> (b2 \<or> (b1 \<and> b0)))))
       b6 b7"
  by (cases b0; cases b1; cases b2; cases b3; cases b4; cases b5; cases b6; cases b7)
     (simp_all add: to_upper_def is_lower_def char_of_def bit_Suc_0_iff)

lemma is_digit_Char:
  "is_digit (Char b0 b1 b2 b3 b4 b5 b6 b7) =
     (b4 \<and> b5 \<and> \<not> b6 \<and> \<not> b7 \<and> \<not> (b3 \<and> (b2 \<or> b1)))"
  by (cases b0; cases b1; cases b2; cases b3; cases b4; cases b5; cases b6; cases b7)
     (simp_all add: is_digit_def)

lemma is_linebreak_Char:
  "is_linebreak (Char b0 b1 b2 b3 b4 b5 b6 b7) =
     (\<not> b5 \<and> \<not> b6 \<and>
      ((\<not> b7 \<and> \<not> b4 \<and> b3 \<and> ((\<not> b2 \<and> b1) \<or> (b2 \<and> \<not> b1))) \<or>
       (\<not> b7 \<and> b4 \<and> b3 \<and> b2 \<and> \<not> (b1 \<and> b0)) \<or>
       (b7 \<and> \<not> b4 \<and> \<not> b3 \<and> b2 \<and> \<not> b1 \<and> b0)))"
  by (cases b0; cases b1; cases b2; cases b3; cases b4; cases b5; cases b6; cases b7)
     (simp_all add: is_linebreak_def)

lemmas re_eval = lit_def dig_def stamp_def word_class_def hex_class_def state_class_def
  name_class_def mission_switched_def to_lower_Char to_upper_Char is_digit_Char in_ranges_def

lemmas lines_eval = splitlines_def is_linebreak_Char

section \<open>Claims about the offset store\<close>

text \<open>
  C3. No-op on unchanged or shrunken content: when the stored FileState has a
  \<open>line_count\<close> above 0 and the content has at most that many lines,
  \<open>parse_log_content\<close> returns no event and leaves the whole parser state, and with it
  the stored FileState (\<open>line_count\<close> and \<open>last_updated\<close>) and the persisted document,
  as it was.
\<close>

theorem parse_log_content_noop:
  assumes "map_of (file_states s) (guild_id @ ''_'' @ server_id) = Some fs"
    and "0 < line_count fs"
    and "length (splitlines content) \<le> line_count fs"
  shows "parse_log_content content guild_id server_id now s = ([], s)"
  using assms by (simp add: parse_log_content_def stored_line_count_def Let_def)

theorem parse_log_content_noop_witness:
  "parse_log_content (''a'' @ [CHR 0x0A] @ ''b'') ''12'' ''srv'' 9
     ((init_state True)\<lparr>file_states := [(''12_srv'', \<lparr>line_count = 2, last_updated = 5\<rparr>)]\<rparr>)
   = ([], (init_state True)\<lparr>file_states := [(''12_srv'', \<lparr>line_count = 2, last_updated = 5\<rparr>)]\<rparr>)
   \<and>
   parse_log_content ''a'' ''12'' ''srv'' 9
     ((init_state True)\<lparr>file_states := [(''12_srv'', \<lparr>line_count = 2, last_updated = 5\<rparr>)]\<rparr>)
   = ([], (init_state True)\<lparr>file_states := [(''12_srv'', \<lparr>line_count = 2, last_updated = 5\<rparr>)]\<rparr>)"
proof -
  let ?fs = "\<lparr>line_count = 2, last_updated = 5\<rparr>"
  let ?s = "(init_state True)\<lparr>file_states := [(''12_srv'', ?fs)]\<rparr>"
  have key: "map_of (file_states ?s) (''12'' @ ''_'' @ ''srv'') = Some ?fs" by simp
  have pos: "0 < line_count ?fs" by simp
  have same: "length (splitlines (''a'' @ [CHR 0x0A] @ ''b'')) \<le> line_count ?fs"
    by (simp add: lines_eval)
  have less: "length (splitlines ''a'') \<le> line_count ?fs"
    by (simp add: lines_eval)
  show ?thesis
    using parse_log_content_noop [OF key pos same] parse_log_content_noop [OF key pos less]
    by (intro conjI)
qed

section \<open>Cold start\<close>

lemma emits_append: "emits (a @ b) = emits a @ emits b"
  by (induction a rule: emits.induct) simp_all


lemma emits_map_Scan: "emits (map Scan ls) = []"
  by (induction ls) simp_all

lemma scans_map_Scan: "scans (map Scan ls) = ls"
  by (induction ls) simp_all

lemma cold_lines_state:
  "snd (cold_lines lines (events_parsed, s)) = s\<lparr>trace := trace s @ map Scan lines\<rparr>"
  by (induction lines arbitrary: events_parsed s) simp_all

lemma process_cold_start_state:
  "snd (process_cold_start content guild_id server_id now s) =
     save_persistent_state
       (s\<lparr>file_states :=
            AList.update (guild_id @ ''_'' @ server_id)
              \<lparr>line_count = length (splitlines content), last_updated = now\<rparr> (file_states s),
          trace := trace s @ map Scan (splitlines content) @
                     [WriteFileState (guild_id @ ''_'' @ server_id) (length (splitlines content))]\<rparr>)"
  by (simp add: process_cold_start_def Let_def cold_lines_state)

lemma save_persistent_state_fields:
  "trace (save_persistent_state s) = trace s @ [SaveState]"
  "file_states (save_persistent_state s) = file_states s"
  "player_sessions (save_persistent_state s) = player_sessions s"
  "player_lifecycle (save_persistent_state s) = player_lifecycle s"
  by (simp_all add: save_persistent_state_def Let_def)

lemma str_int_12: "str_int 12 = ''12''"
  by code_simp

text \<open>
  C9. The dispatch of \<open>parse_server_logs\<close> looks only at whether the stored
  \<open>line_count\<close> is above 0: for non-empty content it runs \<open>parse_log_content\<close> when it
  is, and the cold start otherwise. So a key whose recorded FileState has
  \<open>line_count = 0\<close> is processed as a cold start again: no embed is handed on and none
  is appended, although a FileState exists.
\<close>

theorem cold_start_again_on_zero_line_count:
  assumes "content \<noteq> []"
    and "map_of (file_states s) (str_int guild_id @ ''_'' @ server_id) = Some fs"
    and "line_count fs = 0"
  shows "parse_server_logs guild_id server_id content now s =
           ([], snd (process_cold_start content (str_int guild_id) server_id now s))
       \<and> emits (trace (snd (parse_server_logs guild_id server_id content now s))) = emits (trace s)
       \<and> parse_server_logs guild_id server_id content now s2 =
           (if 0 < stored_line_count s2 (str_int guild_id @ ''_'' @ server_id)
            then parse_log_content content (str_int guild_id) server_id now s2
            else ([], snd (process_cold_start content (str_int guild_id) server_id now s2)))"
proof -
  have cold: "parse_server_logs guild_id server_id content now s =
           ([], snd (process_cold_start content (str_int guild_id) server_id now s))"
    using assms by (simp add: parse_server_logs_def stored_line_count_def Let_def)
  have quiet: "emits (trace (snd (process_cold_start content (str_int guild_id) server_id now s)))
                 = emits (trace s)"
    by (simp add: process_cold_start_state save_persistent_state_fields emits_append
        emits_map_Scan)
  have dispatch: "parse_server_logs guild_id server_id content now s2 =
           (if 0 < stored_line_count s2 (str_int guild_id @ ''_'' @ server_id)
            then parse_log_content content (str_int guild_id) server_id now s2
            else ([], snd (process_cold_start content (str_int guild_id) server_id now s2)))"
    using assms(1) by (simp add: parse_server_logs_def Let_def)
  from cold quiet dispatch show ?thesis by simp
qed

theorem cold_start_again_on_zero_line_count_witness:
  "parse_server_logs 12 ''srv'' ''x'' 9
     ((init_state True)\<lparr>file_states := [(''12_srv'', \<lparr>line_count = 0, last_updated = 5\<rparr>)]\<rparr>)
   = ([], snd (process_cold_start ''x'' (str_int 12) ''srv'' 9
        ((init_state True)\<lparr>file_states := [(''12_srv'', \<lparr>line_count = 0, last_updated = 5\<rparr>)]\<rparr>)))"
proof -
  let ?fs = "\<lparr>line_count = 0, last_updated = 5\<rparr>"
  let ?s = "(init_state True)\<lparr>file_states := [(''12_srv'', ?fs)]\<rparr>"
  have nonempty: "''x'' \<noteq> []" by simp
  have key: "map_of (file_states ?s) (str_int 12 @ ''_'' @ ''srv'') = Some ?fs"
    by (simp add: str_int_12)
  have zero: "line_count ?fs = 0" by simp
  show ?thesis
    by (rule conjunct1 [OF cold_start_again_on_zero_line_count [OF nonempty key zero]])
qed

section \<open>Claims about the event router\<close>

text \<open>
  C7 as stated fails: a server-specific entry that is present but falsy (the id 0) is
  passed over by the guard \<open>if channel_id\<close>, and the tenant-wide default is returned.
\<close>

theorem get_server_channel_counterexample:
  "map_of [(''events'', 0::int)] ''events'' = Some 0 \<and>
   get_server_channel
     (\<lambda>g. Inr (Some \<lparr>server_channels =
                        Some [(''srv1'', [(''events'', 0)]), (''default'', [(''events'', 555)])],
                      channels = None, other_keys = True\<rparr>))
     12 ''srv1'' ''events'' = Some 555"
  by (simp add: get_server_channel_def config_truthy_def get_or_empty_def truthy_entry_def)

text \<open>
  C7, amended. \<open>get_server_channel\<close> returns, first match winning, (1) the
  server-specific entry of the channel type if it is present and truthy (not 0),
  otherwise (2) the entry of the channel type under \<open>default\<close> if it is present and
  truthy, otherwise (3) the legacy flat entry, whatever its value, and \<open>None\<close> if there
  is none. In particular a truthy server-specific entry wins over a default entry. When
  the lookup of the tenant document raises or finds nothing, the result is \<open>None\<close>.
\<close>

theorem get_server_channel_precedence:
  "(get_guild guild_id = Inr (Some cfg)
      \<and> map_of (get_or_empty (server_channels cfg)) server_id = Some chans
      \<and> map_of chans channel_type = Some c \<and> c \<noteq> 0
      \<longrightarrow> get_server_channel get_guild guild_id server_id channel_type = Some c) \<and>
   (get_guild guild_id = Inr (Some cfg)
      \<and> truthy_entry (get_or_empty (server_channels cfg)) server_id channel_type = None
      \<and> map_of (get_or_empty (server_channels cfg)) ''default'' = Some dchans
      \<and> map_of dchans channel_type = Some d \<and> d \<noteq> 0
      \<longrightarrow> get_server_channel get_guild guild_id server_id channel_type = Some d) \<and>
   (get_guild guild_id = Inr (Some cfg)
      \<and> truthy_entry (get_or_empty (server_channels cfg)) server_id channel_type = None
      \<and> truthy_entry (get_or_empty (server_channels cfg)) ''default'' channel_type = None
      \<longrightarrow> get_server_channel get_guild guild_id server_id channel_type =
            map_of (get_or_empty (channels cfg)) channel_type) \<and>
   (get_guild guild_id = Inl e
      \<longrightarrow> get_server_channel get_guild guild_id server_id channel_type = None) \<and>
   (get_guild guild_id = Inr None
      \<longrightarrow> get_server_channel get_guild guild_id server_id channel_type = None) \<and>
   (truthy_entry sc key channel_type = None \<longleftrightarrow>
      (case map_of sc key of
         None \<Rightarrow> True
       | Some m \<Rightarrow> (case map_of m channel_type of None \<Rightarrow> True | Some v \<Rightarrow> v = 0)))"
proof -
  have falsy: "get_server_channel get_guild guild_id server_id channel_type = None"
    if "get_guild guild_id = Inr (Some cfg)" "\<not> config_truthy cfg"
    using that by (simp add: get_server_channel_def)
  have empty: "get_or_empty (server_channels cfg) = [] \<and> get_or_empty (channels cfg) = []"
    if "\<not> config_truthy cfg"
    using that by (auto simp: config_truthy_def get_or_empty_def)
  show ?thesis
    using falsy empty
    by (cases "config_truthy cfg")
       (auto simp: get_server_channel_def truthy_entry_def Let_def split: option.splits)
qed

theorem get_server_channel_precedence_witness:
  "get_server_channel
     (\<lambda>g. Inr (Some \<lparr>server_channels =
                        Some [(''srv1'', [(''events'', 777)]), (''default'', [(''events'', 555)])],
                      channels = Some [(''events'', 111)], other_keys = True\<rparr>))
     12 ''srv1'' ''events'' = Some 777"
proof -
  let ?cfg = "\<lparr>server_channels =
                 Some [(''srv1'', [(''events'', 777::int)]), (''default'', [(''events'', 555)])],
               channels = Some [(''events'', 111)], other_keys = True\<rparr>"
  let ?get = "\<lambda>g::int. (Inr (Some ?cfg) :: py_error + guild_config option)"
  have h: "?get 12 = Inr (Some ?cfg)
      \<and> map_of (get_or_empty (server_channels ?cfg)) ''srv1'' = Some [(''events'', 777)]
      \<and> map_of [(''events'', 777::int)] ''events'' = Some 777 \<and> (777::int) \<noteq> 0"
    by (simp add: get_or_empty_def)
  show ?thesis
    by (rule mp [OF conjunct1 [OF get_server_channel_precedence
          [of ?get 12 ?cfg "''srv1''" "[(''events'', 777)]" "''events''" 777]] h])
qed

section \<open>Tenant keys\<close>






lemma digits_nonempty: "digits n \<noteq> []"
  by (cases "n < 10") (simp_all add: digits.simps [of n])














section \<open>The line loop\<close>

lemma extends_refl: "extends st [] st"
  by (simp add: extends_def)

lemma extends_trans: "extends a n1 b \<Longrightarrow> extends b n2 c \<Longrightarrow> extends a (n1 @ n2) c"
  by (simp add: extends_def)

lemma append_embed_extends: "extends st (opt_list made) (append_embed made st)"
  by (cases made; cases st) (auto simp: extends_def append_embed_def opt_list_def)

lemma length_opt_list: "length (opt_list x) \<le> 1"
  by (cases x) (simp_all add: opt_list_def)

lemma m_here_arity:
  "m_here ic its s g caps = Some res \<Longrightarrow>
     length res = length caps + length (filter (\<lambda>i. i = GClose) its)"
  by (induction ic its s g caps rule: m_here.induct) (auto split: if_splits option.splits)

lemma search_from_arity:
  "search_from ic its s = Some res \<Longrightarrow> length res = length (filter (\<lambda>i. i = GClose) its)"
  by (induction ic its s rule: search_from.induct)
     (auto split: option.splits dest: m_here_arity)

lemma re_search_arity: "re_search p s = Some res \<Longrightarrow> length res = ngroups p"
  by (cases p) (auto split: if_splits dest: m_here_arity search_from_arity)

lemma ngroups_patterns:
  "ngroups re_mission_respawn = 2" "ngroups re_mission_state_change = 2"
  "ngroups re_player_queue_join = 2" "ngroups re_player_registered = 1"
  "ngroups re_player_disconnect = 1"
  by (simp_all add: re_mission_respawn_def re_mission_state_change_def
      re_player_queue_join_def re_player_registered_def re_player_disconnect_def lit_def)

lemma two_groups: "length gs = 2 \<Longrightarrow> \<exists>a b. gs = [a, b]"
  by (cases gs; cases "tl gs") auto

lemma one_group: "length gs = 1 \<Longrightarrow> \<exists>a. gs = [a]"
  by (cases gs) auto

lemma mission_loop_skip:
  "pattern_name \<noteq> ''mission_respawn'' \<Longrightarrow> pattern_name \<noteq> ''mission_state_change'' \<Longrightarrow>
     mission_loop g n line ((pattern_name, p) # rest) st = mission_loop g n line rest st"
  by (cases "re_search p line") simp_all

lemma mission_loop_respawn:
  "mission_loop g n line ((''mission_respawn'', p) # rest) st =
     (case re_search p line of
        None \<Rightarrow> mission_loop g n line rest st
      | Some groups \<Rightarrow>
          (case groups of
             [mission_id, respawn_time] \<Rightarrow>
               (let st' = append_embed
                            (process_mission_event g mission_id ''RESPAWN''
                               (Some (py_int respawn_time))) st
                in if fst (snd st') > n * 2 then (None, log_safety_break n st')
                   else mission_loop g n line rest st')
           | _ \<Rightarrow> (Some ValueError, st)))"
  by (cases "re_search p line") simp_all

lemma mission_loop_change:
  "mission_loop g n line ((''mission_state_change'', p) # rest) st =
     (case re_search p line of
        None \<Rightarrow> mission_loop g n line rest st
      | Some groups \<Rightarrow>
          (case groups of
             [mission_id, state] \<Rightarrow>
               (let st' = append_embed (process_mission_event g mission_id state None) st
                in if fst (snd st') > n * 2 then (None, log_safety_break n st')
                   else mission_loop g n line rest st')
           | _ \<Rightarrow> (Some ValueError, st)))"
  by (cases "re_search p line") simp_all

lemma mission_loop_patterns:
  "mission_loop g n line patterns st =
     (None,
      let st1 = respawn_step g line st
      in if re_search re_mission_respawn line \<noteq> None \<and> fst (snd st1) > n * 2
         then log_safety_break n st1
         else let st2 = change_step g line st1
              in if re_search re_mission_state_change line \<noteq> None \<and> fst (snd st2) > n * 2
                 then log_safety_break n st2
                 else st2)"
proof -
  have r: "\<exists>a b. gs = [a, b]" if "re_search re_mission_respawn line = Some gs" for gs
    using re_search_arity [OF that] two_groups [of gs] by (simp add: ngroups_patterns)
  have c: "\<exists>a b. gs = [a, b]" if "re_search re_mission_state_change line = Some gs" for gs
    using re_search_arity [OF that] two_groups [of gs] by (simp add: ngroups_patterns)
  have tail: "mission_loop g n line
        [(''mission_ready'', re_mission_ready), (''mission_initial'', re_mission_initial),
         (''mission_in_progress'', re_mission_in_progress),
         (''mission_completed'', re_mission_completed), (''vehicle_spawn'', re_vehicle_spawn),
         (''vehicle_delete'', re_vehicle_delete), (''timestamp'', re_timestamp)] st' = (None, st')"
    for st'
    by (simp del: mission_loop.simps add: mission_loop.simps(1) mission_loop_skip)
  have head: "mission_loop g n line patterns st =
      mission_loop g n line
        [(''mission_respawn'', re_mission_respawn),
         (''mission_state_change'', re_mission_state_change),
         (''mission_ready'', re_mission_ready), (''mission_initial'', re_mission_initial),
         (''mission_in_progress'', re_mission_in_progress),
         (''mission_completed'', re_mission_completed), (''vehicle_spawn'', re_vehicle_spawn),
         (''vehicle_delete'', re_vehicle_delete), (''timestamp'', re_timestamp)] st"
    unfolding patterns_def
    by (simp del: mission_loop.simps add: mission_loop_skip)
  note unfold = mission_loop_respawn mission_loop_change tail respawn_step_def change_step_def
    Let_def
  show ?thesis
  proof (cases "re_search re_mission_respawn line")
    case None
    show ?thesis
    proof (cases "re_search re_mission_state_change line")
      case None
      with \<open>re_search re_mission_respawn line = None\<close> show ?thesis
        unfolding head by (simp del: mission_loop.simps add: unfold)
    next
      case (Some gs)
      from c [OF Some] obtain a b where gs: "gs = [a, b]" by blast
      with Some \<open>re_search re_mission_respawn line = None\<close> show ?thesis
        unfolding head by (simp del: mission_loop.simps add: unfold)
    qed
  next
    case (Some rs)
    from r [OF Some] obtain m t where rs: "rs = [m, t]" by blast
    show ?thesis
    proof (cases "re_search re_mission_state_change line")
      case None
      with Some rs show ?thesis
        unfolding head by (simp del: mission_loop.simps add: unfold)
    next
      case (Some gs)
      from c [OF Some] obtain a b where gs: "gs = [a, b]" by blast
      with Some \<open>re_search re_mission_respawn line = Some rs\<close> rs show ?thesis
        unfolding head by (simp del: mission_loop.simps add: unfold)
    qed
  qed
qed

lemma process_mission_event_Some: "\<exists>e. process_mission_event g m st r = Some e"
proof -
  obtain name where "normalize_mission_name m = Inr name"
    using normalize_mission_name_ok by blast
  then show ?thesis
    by (simp add: process_mission_event_def create_mission_embed_def Let_def)
qed

lemma opt_list_mission: "length (opt_list (process_mission_event g m st r)) = 1"
  using process_mission_event_Some [of g m st r] by (auto simp: opt_list_def)

lemma respawn_step_extends:
  "\<exists>new. extends st new (respawn_step g line st) \<and> length new = matches re_mission_respawn line"
proof (cases "re_search re_mission_respawn line")
  case None
  then show ?thesis
    using extends_refl by (auto simp: respawn_step_def matches_def)
next
  case (Some gs)
  then show ?thesis
    using append_embed_extends opt_list_mission
    by (fastforce simp: respawn_step_def matches_def)
qed

lemma change_step_extends:
  "\<exists>new. extends st new (change_step g line st)
     \<and> length new = matches re_mission_state_change line"
proof (cases "re_search re_mission_state_change line")
  case None
  then show ?thesis
    using extends_refl by (auto simp: change_step_def matches_def)
next
  case (Some gs)
  then show ?thesis
    using append_embed_extends opt_list_mission
    by (fastforce simp: change_step_def matches_def)
qed

lemma log_safety_break_extends:
  "extends a new b \<Longrightarrow> extends a new (log_safety_break n b)"
  by (cases b) (simp add: extends_def log_safety_break_def)

lemma log_safety_break_if_extends:
  "extends a new b \<Longrightarrow> extends a new (if c then log_safety_break n b else b)"
  by (simp add: log_safety_break_extends)

lemma mission_loop_noerr: "fst (mission_loop g n line patterns st) = None"
  by (simp add: mission_loop_patterns)

lemma mission_loop_extends:
  "\<exists>new. extends st new (snd (mission_loop g n line patterns st))
     \<and> length new \<le> matches re_mission_respawn line + matches re_mission_state_change line
     \<and> (fst (snd st) \<le> 2 * n \<longrightarrow> fst (snd st) + length new \<le> 2 * n + 1)
     \<and> (fst (snd st) < 2 * n \<longrightarrow>
          length new = matches re_mission_respawn line + matches re_mission_state_change line)"
proof -
  define st1 where "st1 = respawn_step g line st"
  define st2 where "st2 = change_step g line st1"
  obtain n1 where n1: "extends st n1 st1" "length n1 = matches re_mission_respawn line"
    using respawn_step_extends unfolding st1_def by blast
  obtain n2 where n2: "extends st1 n2 st2" "length n2 = matches re_mission_state_change line"
    using change_step_extends unfolding st2_def by blast
  have m1: "matches re_mission_respawn line \<le> 1" "matches re_mission_state_change line \<le> 1"
    by (simp_all add: matches_def)
  have pe1: "fst (snd st1) = fst (snd st) + length n1"
    using n1(1) by (simp add: extends_def)
  show ?thesis
  proof (cases "re_search re_mission_respawn line \<noteq> None \<and> fst (snd st1) > n * 2")
    case True
    then have res: "snd (mission_loop g n line patterns st) = log_safety_break n st1"
      by (simp add: mission_loop_patterns Let_def st1_def)
    from True have big: "n * 2 < fst (snd st) + length n1" using pe1 by simp
    have ext: "extends st n1 (log_safety_break n st1)"
      using n1(1) by (rule log_safety_break_extends)
    show ?thesis
      unfolding res using ext n1(2) m1 big
      by (intro exI [of _ n1]) auto
  next
    case False
    then have res: "snd (mission_loop g n line patterns st) =
        (if re_search re_mission_state_change line \<noteq> None \<and> fst (snd st2) > n * 2
         then log_safety_break n st2 else st2)"
      by (auto simp add: mission_loop_patterns Let_def st1_def st2_def)
    have ext: "extends st (n1 @ n2)
        (if re_search re_mission_state_change line \<noteq> None \<and> fst (snd st2) > n * 2
         then log_safety_break n st2 else st2)"
      using extends_trans [OF n1(1) n2(1)] by (rule log_safety_break_if_extends)
    have nobreak: "re_search re_mission_respawn line = None \<or> fst (snd st) + length n1 \<le> n * 2"
      using False pe1 by auto
    have zero: "length n1 = 0" if "re_search re_mission_respawn line = None"
      using that n1(2) by (simp add: matches_def)
    show ?thesis
      unfolding res using ext n1(2) n2(2) m1 nobreak zero
      by (intro exI [of _ "n1 @ n2"]) auto
  qed
qed

lemma patterns_lookup:
  "map_of patterns ''player_queue_join'' = Some re_player_queue_join"
  "map_of patterns ''player_registered'' = Some re_player_registered"
  "map_of patterns ''player_disconnect'' = Some re_player_disconnect"
  by (simp_all add: patterns_def)

lemma process_player_connection_frame:
  "trace (snd (process_player_connection g p nm ev now s)) = trace s"
  "file_states (snd (process_player_connection g p nm ev now s)) = file_states s"
  "persisted (snd (process_player_connection g p nm ev now s)) = persisted s"
  by (simp_all add: process_player_connection_def create_connection_embed_def
      update_voice_channel_def Let_def split: option.splits)

lemma process_player_connection_Some:
  "ev = ''joined'' \<or> ev = ''disconnected'' \<Longrightarrow>
     \<exists>e. fst (process_player_connection g p nm ev now s) = Some e"
  by (auto simp: process_player_connection_def create_connection_embed_def Let_def)

lemma connection_step_extends:
  assumes "ev = ''joined'' \<or> ev = ''disconnected''"
  shows "\<exists>new. extends (embeds, pe, s) new
           (append_embed (fst (process_player_connection g p nm ev now s))
              (embeds, pe, snd (process_player_connection g p nm ev now s)))
         \<and> length new = 1"
proof -
  obtain e where e: "fst (process_player_connection g p nm ev now s) = Some e"
    using process_player_connection_Some [OF assms] by blast
  show ?thesis
    unfolding e
    by (intro exI [of _ "[e]"])
       (simp add: extends_def append_embed_def process_player_connection_frame)
qed

lemma queue_join_section_extends:
  "fst (queue_join_section g now line st) = None
     \<and> extends st [] (snd (queue_join_section g now line st))"
proof (cases "re_search re_player_queue_join line")
  case None
  then show ?thesis
    by (simp add: queue_join_section_def patterns_lookup extends_def)
next
  case (Some gs)
  obtain a b where gs: "gs = [a, b]"
    using re_search_arity [OF Some] two_groups [of gs] by (auto simp: ngroups_patterns)
  show ?thesis
    using Some gs
    by (cases st) (simp add: queue_join_section_def patterns_lookup extends_def)
qed

lemma registered_section_extends:
  "\<exists>new. fst (registered_section g now line st) = None
     \<and> extends st new (snd (registered_section g now line st))
     \<and> length new = matches re_player_registered line"
proof (cases "re_search re_player_registered line")
  case None
  then show ?thesis
    by (simp add: registered_section_def patterns_lookup extends_def matches_def)
next
  case (Some gs)
  obtain a where gs: "gs = [a]"
    using re_search_arity [OF Some] one_group [of gs] by (auto simp: ngroups_patterns)
  obtain embeds pe s where st: "st = (embeds, pe, s)" by (cases st) auto
  show ?thesis
    using Some gs st connection_step_extends [of "''joined''" embeds pe s g a _ now]
    by (simp add: registered_section_def patterns_lookup matches_def Let_def)
qed

lemma disconnect_section_extends:
  "\<exists>new. fst (disconnect_section g now line st) = None
     \<and> extends st new (snd (disconnect_section g now line st))
     \<and> length new = matches re_player_disconnect line"
proof (cases "re_search re_player_disconnect line")
  case None
  then show ?thesis
    by (simp add: disconnect_section_def patterns_lookup extends_def matches_def)
next
  case (Some gs)
  obtain a where gs: "gs = [a]"
    using re_search_arity [OF Some] one_group [of gs] by (auto simp: ngroups_patterns)
  obtain embeds pe s where st: "st = (embeds, pe, s)" by (cases st) auto
  show ?thesis
    using Some gs st connection_step_extends [of "''disconnected''" embeds pe s g a _ now]
    by (simp add: disconnect_section_def patterns_lookup matches_def Let_def)
qed

lemma process_line_effect:
  "\<exists>new s'.
     process_line g n now line (embeds, pe, s) =
       (pe + length new > n * 2, (embeds @ new, pe + length new, s'))
     \<and> trace s' = trace s @ Scan line # map Emit new
     \<and> file_states s' = file_states s \<and> persisted s' = persisted s
     \<and> length new \<le> emitting_matches line
     \<and> (pe \<le> 2 * n \<longrightarrow> pe + length new \<le> 2 * n + 3)
     \<and> (pe < 2 * n \<longrightarrow> length new = emitting_matches line)
     \<and> (pe + length new > n * 2 \<longrightarrow>
          safety_log s' \<noteq> [] \<and> last (safety_log s') = (pe + length new, n))"
proof -
  define st0 where "st0 = (embeds, pe, s\<lparr>trace := trace s @ [Scan line]\<rparr>)"
  define st1 where "st1 = snd (mission_loop g n line patterns st0)"
  define st2 where "st2 = snd (queue_join_section g now line st1)"
  define st3 where "st3 = snd (registered_section g now line st2)"
  define st4 where "st4 = snd (disconnect_section g now line st3)"
  define st5 where "st5 = (if fst (snd st4) > n * 2 then log_safety_break n st4 else st4)"
  obtain n1 where n1: "extends st0 n1 st1"
      "length n1 \<le> matches re_mission_respawn line + matches re_mission_state_change line"
      "fst (snd st0) \<le> 2 * n \<longrightarrow> fst (snd st0) + length n1 \<le> 2 * n + 1"
      "fst (snd st0) < 2 * n \<longrightarrow>
         length n1 = matches re_mission_respawn line + matches re_mission_state_change line"
    using mission_loop_extends [of st0 g n line] unfolding st1_def by blast
  have e1: "mission_loop g n line patterns st0 = (None, st1)"
    using mission_loop_noerr [of g n line st0] by (simp add: st1_def prod_eq_iff)
  have q: "fst (queue_join_section g now line st1) = None" "extends st1 [] st2"
    using queue_join_section_extends [of g now line st1] by (simp_all add: st2_def)
  have e2: "queue_join_section g now line st1 = (None, st2)"
    using q(1) by (simp add: st2_def prod_eq_iff)
  obtain n3 where n3: "fst (registered_section g now line st2) = None" "extends st2 n3 st3"
      "length n3 = matches re_player_registered line"
    using registered_section_extends [of g now line st2] unfolding st3_def by blast
  have e3: "registered_section g now line st2 = (None, st3)"
    using n3(1) by (simp add: st3_def prod_eq_iff)
  obtain n4 where n4: "fst (disconnect_section g now line st3) = None" "extends st3 n4 st4"
      "length n4 = matches re_player_disconnect line"
    using disconnect_section_extends [of g now line st3] unfolding st4_def by blast
  have e4: "disconnect_section g now line st3 = (None, st4)"
    using n4(1) by (simp add: st4_def prod_eq_iff)
  have pl: "process_line g n now line (embeds, pe, s) = (fst (snd st4) > n * 2, st5)"
    by (simp add: process_line_def and_then_def Let_def st0_def [symmetric] e1 e2 e3 e4 st5_def)
  have ext4: "extends st0 (n1 @ n3 @ n4) st4"
    using extends_trans [OF n1(1) extends_trans [OF q(2) extends_trans [OF n3(2) n4(2)]]]
    by simp
  have ext: "extends st0 (n1 @ n3 @ n4) st5"
    unfolding st5_def using ext4 by (rule log_safety_break_if_extends)
  define new where "new = n1 @ n3 @ n4"
  have st5: "st5 = (embeds @ new, pe + length new, snd (snd st5))"
    using ext by (simp add: extends_def st0_def new_def prod_eq_iff)
  have tr: "trace (snd (snd st5)) = trace s @ Scan line # map Emit new"
    using ext by (simp add: extends_def st0_def new_def)
  have fs: "file_states (snd (snd st5)) = file_states s" "persisted (snd (snd st5)) = persisted s"
    using ext by (simp_all add: extends_def st0_def)
  have pe0: "fst (snd st0) = pe" by (simp add: st0_def)
  have m: "matches re_player_registered line \<le> 1" "matches re_player_disconnect line \<le> 1"
    by (simp_all add: matches_def)
  have len: "length new = length n1 + length n3 + length n4" by (simp add: new_def)
  have pe4: "fst (snd st4) = pe + length new"
    using ext4 by (simp add: extends_def st0_def new_def)
  have b1: "length new \<le> emitting_matches line"
    using n1(2) n3(3) n4(3) len by (simp add: emitting_matches_def)
  have b2: "pe \<le> 2 * n \<longrightarrow> pe + length new \<le> 2 * n + 3"
    using n1(3) n3(3) n4(3) m len pe0 by auto
  have b3: "pe < 2 * n \<longrightarrow> length new = emitting_matches line"
    using n1(4) n3(3) n4(3) len pe0 by (simp add: emitting_matches_def)
  have b4: "pe + length new > n * 2 \<longrightarrow>
      safety_log (snd (snd st5)) \<noteq> [] \<and> last (safety_log (snd (snd st5))) = (pe + length new, n)"
    using pe4 by (cases st4) (auto simp: st5_def log_safety_break_def)
  have "process_line g n now line (embeds, pe, s) =
       (pe + length new > n * 2, (embeds @ new, pe + length new, snd (snd st5)))"
    using pl st5 pe4 by simp
  with tr fs b1 b2 b3 b4 show ?thesis by blast
qed

lemma process_lines_effect:
  assumes "pe \<le> 2 * n"
  shows "\<exists>bs rest s'.
     process_lines g n now lines (embeds, pe, s) =
       (embeds @ concat (map snd bs), pe + length (concat (map snd bs)), s')
     \<and> lines = map fst bs @ rest
     \<and> trace s' = trace s @ blocks bs
     \<and> file_states s' = file_states s \<and> persisted s' = persisted s
     \<and> (rest \<noteq> [] \<longrightarrow> 2 * n < pe + length (concat (map snd bs)))
     \<and> pe + length (concat (map snd bs)) \<le> 2 * n + 3
     \<and> (lines \<noteq> [] \<longrightarrow> bs \<noteq> [])
     \<and> (lines \<noteq> [] \<and> pe < 2 * n \<longrightarrow> length (snd (hd bs)) = emitting_matches (hd lines))
     \<and> (2 * n < pe + length (concat (map snd bs)) \<longrightarrow>
          safety_log s' \<noteq> [] \<and> last (safety_log s') = (pe + length (concat (map snd bs)), n))
     \<and> pe + length (concat (map snd (butlast bs))) \<le> 2 * n"
  using assms
proof (induction lines arbitrary: embeds pe s)
  case Nil
  show ?case
    by (rule exI [of _ "[]"], rule exI [of _ "[]"], rule exI [of _ s]) (use Nil in simp)
next
  case (Cons line lines)
  obtain new s1 where eff:
      "process_line g n now line (embeds, pe, s) =
         (pe + length new > n * 2, (embeds @ new, pe + length new, s1))"
      "trace s1 = trace s @ Scan line # map Emit new"
      "file_states s1 = file_states s" "persisted s1 = persisted s"
      "pe \<le> 2 * n \<longrightarrow> pe + length new \<le> 2 * n + 3"
      "pe < 2 * n \<longrightarrow> length new = emitting_matches line"
      "pe + length new > n * 2 \<longrightarrow>
          safety_log s1 \<noteq> [] \<and> last (safety_log s1) = (pe + length new, n)"
    using process_line_effect [of g n now line embeds pe s] by blast
  show ?case
  proof (cases "pe + length new > n * 2")
    case True
    have run: "process_lines g n now (line # lines) (embeds, pe, s) =
                 (embeds @ new, pe + length new, s1)"
      using eff(1) True by simp
    show ?thesis
      by (rule exI [of _ "[(line, new)]"], rule exI [of _ lines], rule exI [of _ s1])
         (use run eff Cons.prems True in simp)
  next
    case False
    then have le: "pe + length new \<le> 2 * n" by simp
    have run: "process_lines g n now (line # lines) (embeds, pe, s) =
                 process_lines g n now lines (embeds @ new, pe + length new, s1)"
      using eff(1) False by simp
    obtain bs rest s' where ih:
        "process_lines g n now lines (embeds @ new, pe + length new, s1) =
           ((embeds @ new) @ concat (map snd bs),
            (pe + length new) + length (concat (map snd bs)), s')"
        "lines = map fst bs @ rest"
        "trace s' = trace s1 @ blocks bs"
        "file_states s' = file_states s1" "persisted s' = persisted s1"
        "rest \<noteq> [] \<longrightarrow> 2 * n < (pe + length new) + length (concat (map snd bs))"
        "(pe + length new) + length (concat (map snd bs)) \<le> 2 * n + 3"
        "2 * n < (pe + length new) + length (concat (map snd bs)) \<longrightarrow>
          safety_log s' \<noteq> [] \<and>
          last (safety_log s') = ((pe + length new) + length (concat (map snd bs)), n)"
        "(pe + length new) + length (concat (map snd (butlast bs))) \<le> 2 * n"
      using Cons.IH [OF le, of "embeds @ new" s1] by blast
    show ?thesis
      by (rule exI [of _ "(line, new) # bs"], rule exI [of _ rest], rule exI [of _ s'])
         (use run ih eff le in \<open>simp add: add.assoc\<close>)
  qed
qed

section \<open>Processing cycles\<close>

lemma emits_blocks: "emits (blocks bs) = concat (map snd bs)"
proof (induction bs)
  case Nil
  then show ?case by simp
next
  case (Cons b bs)
  obtain l es where b: "b = (l, es)" by (cases b) auto
  have "emits (map Emit es @ tr) = es @ emits tr" for tr
    by (induction es) simp_all
  with Cons b show ?case by simp
qed


lemma parse_log_content_slice:
  assumes "stored_line_count s (g @ ''_'' @ sid) < length (splitlines content)"
  shows "parse_log_content content g sid now s =
           write_and_extract g (g @ ''_'' @ sid) (length (splitlines content)) now
             (drop (stored_line_count s (g @ ''_'' @ sid)) (splitlines content)) s"
  using assms
  by (cases "stored_line_count s (g @ ''_'' @ sid) = 0")
     (simp_all add: parse_log_content_def Let_def)

lemma write_and_extract_effect:
  "\<exists>bs rest s'.
     write_and_extract g key T now lines s = (concat (map snd bs), s')
     \<and> lines = map fst bs @ rest
     \<and> trace s' = trace s @ WriteFileState key T # SaveState # blocks bs
     \<and> file_states s' = AList.update key \<lparr>line_count = T, last_updated = now\<rparr> (file_states s)
     \<and> persisted s' =
          (if db_manager s
           then Some (AList.update key \<lparr>line_count = T, last_updated = now\<rparr> (file_states s))
           else persisted s)
     \<and> (rest \<noteq> [] \<longrightarrow> 2 * length lines < length (concat (map snd bs)))
     \<and> length (concat (map snd bs)) \<le> 2 * length lines + 3
     \<and> (lines \<noteq> [] \<longrightarrow> bs \<noteq> [] \<and> length (snd (hd bs)) = emitting_matches (hd lines))
     \<and> (2 * length lines < length (concat (map snd bs)) \<longrightarrow>
          safety_log s' \<noteq> [] \<and>
          last (safety_log s') = (length (concat (map snd bs)), length lines))
     \<and> length (concat (map snd (butlast bs))) \<le> 2 * length lines"
proof -
  define s2 where "s2 = save_persistent_state
      (s\<lparr>file_states := AList.update key \<lparr>line_count = T, last_updated = now\<rparr> (file_states s),
         trace := trace s @ [WriteFileState key T]\<rparr>)"
  have s2: "trace s2 = trace s @ [WriteFileState key T, SaveState]"
      "file_states s2 = AList.update key \<lparr>line_count = T, last_updated = now\<rparr> (file_states s)"
      "persisted s2 =
          (if db_manager s
           then Some (AList.update key \<lparr>line_count = T, last_updated = now\<rparr> (file_states s))
           else persisted s)"
    by (simp_all add: s2_def save_persistent_state_def Let_def)
  have zero: "(0::nat) \<le> 2 * length lines" by simp
  obtain bs rest s' where eff:
      "process_lines g (length lines) now lines ([], 0, s2) =
         ([] @ concat (map snd bs), 0 + length (concat (map snd bs)), s')"
      "lines = map fst bs @ rest"
      "trace s' = trace s2 @ blocks bs"
      "file_states s' = file_states s2" "persisted s' = persisted s2"
      "rest \<noteq> [] \<longrightarrow> 2 * length lines < 0 + length (concat (map snd bs))"
      "0 + length (concat (map snd bs)) \<le> 2 * length lines + 3"
      "lines \<noteq> [] \<longrightarrow> bs \<noteq> []"
      "lines \<noteq> [] \<and> 0 < 2 * length lines \<longrightarrow>
         length (snd (hd bs)) = emitting_matches (hd lines)"
      "2 * length lines < 0 + length (concat (map snd bs)) \<longrightarrow>
          safety_log s' \<noteq> [] \<and>
          last (safety_log s') = (0 + length (concat (map snd bs)), length lines)"
      "0 + length (concat (map snd (butlast bs))) \<le> 2 * length lines"
    using process_lines_effect [OF zero, of g now lines "[]" s2] by blast
  have run: "write_and_extract g key T now lines s = (concat (map snd bs), s')"
    using eff(1) by (simp add: write_and_extract_def Let_def s2_def)
  show ?thesis
    by (rule exI [of _ bs], rule exI [of _ rest], rule exI [of _ s'])
       (use run eff s2 in simp)
qed




lemma join_line_searches:
  "re_search re_mission_respawn join_line = None"
  "re_search re_mission_state_change join_line = None"
  "re_search re_player_queue_join join_line = Some [''ab'', ''Alice'']"
  "re_search re_player_registered join_line = None"
  "re_search re_player_disconnect join_line = None"
  by (simp_all add: join_line_def re_mission_respawn_def re_mission_state_change_def
      re_player_queue_join_def re_player_registered_def re_player_disconnect_def re_eval)

lemma registered_line_searches:
  "re_search re_mission_respawn registered_line = None"
  "re_search re_mission_state_change registered_line = None"
  "re_search re_player_queue_join registered_line = None"
  "re_search re_player_registered registered_line = Some [''ab'']"
  "re_search re_player_disconnect registered_line = None"
  by (simp_all add: registered_line_def re_mission_respawn_def re_mission_state_change_def
      re_player_queue_join_def re_player_registered_def re_player_disconnect_def re_eval)

lemma example_contents:
  "splitlines tracking_content = [join_line, registered_line]"
  "splitlines burst_content = [''x'', burst_line]"
  "splitlines starved_content = [''x'', burst_line, burst_line, ready_line]"
  "splitlines ready_content = [ready_line, ready_line]"
  by (simp_all add: tracking_content_def burst_content_def starved_content_def
      ready_content_def join_line_def registered_line_def burst_line_def ready_line_def
      lines_eval)

lemmas line_eval = process_line_def and_then_def mission_loop_patterns respawn_step_def
  change_step_def queue_join_section_def registered_section_def disconnect_section_def
  patterns_lookup process_player_connection_def create_connection_embed_def
  update_voice_channel_def append_embed_def log_safety_break_def connection_footer_def
  Let_def

lemma hot_tracking:
  "player_lifecycle (snd (parse_log_content tracking_content ''12'' ''srv'' 9 (init_state True)))
     = [(''12_ab'', \<lparr>l_name = ''Alice'', l_queue_joined = 9\<rparr>)]
   \<and> player_sessions (snd (parse_log_content tracking_content ''12'' ''srv'' 9 (init_state True)))
     = [(''12_ab'', \<lparr>s_player_id = ''ab'', s_player_name = ''Alice'', s_guild_id = ''12'',
          s_joined_at = 9, s_status = ''online'', s_left_at = None\<rparr>)]"
  by (simp add: parse_log_content_def stored_line_count_def example_contents
      write_and_extract_def save_persistent_state_def init_state_def line_eval
      join_line_searches registered_line_searches)


lemma cold_tracking:
  "player_lifecycle (snd (process_cold_start content g sid now s)) = player_lifecycle s"
  "player_sessions (snd (process_cold_start content g sid now s)) = player_sessions s"
  "map_of (file_states (snd (process_cold_start content g sid now s))) (g @ ''_'' @ sid)
     = Some \<lparr>line_count = length (splitlines content), last_updated = now\<rparr>"
  by (simp_all add: process_cold_start_state save_persistent_state_fields update_conv')

text \<open>
  C1. The cold start records \<open>line_count = N\<close> and appends no embed, but it leaves the
  player lifecycle cache and the player sessions as they were: on a queue-join line
  followed by a registration line, \<open>parse_log_content\<close> stores the name and the online
  session, and \<open>_process_cold_start\<close> stores neither.
\<close>

theorem cold_start_tracks_nothing:
  "map_of (file_states (snd (process_cold_start tracking_content ''12'' ''srv'' 9 (init_state True))))
       ''12_srv'' = Some \<lparr>line_count = 2, last_updated = 9\<rparr>
   \<and> emits (trace (snd (process_cold_start tracking_content ''12'' ''srv'' 9 (init_state True)))) = []
   \<and> player_lifecycle (snd (process_cold_start tracking_content ''12'' ''srv'' 9 (init_state True))) = []
   \<and> player_sessions (snd (process_cold_start tracking_content ''12'' ''srv'' 9 (init_state True))) = []
   \<and> player_lifecycle (snd (parse_log_content tracking_content ''12'' ''srv'' 9 (init_state True)))
       = [(''12_ab'', \<lparr>l_name = ''Alice'', l_queue_joined = 9\<rparr>)]
   \<and> player_sessions (snd (parse_log_content tracking_content ''12'' ''srv'' 9 (init_state True)))
       = [(''12_ab'', \<lparr>s_player_id = ''ab'', s_player_name = ''Alice'', s_guild_id = ''12'',
            s_joined_at = 9, s_status = ''online'', s_left_at = None\<rparr>)]"
proof -
  have a: "map_of (file_states (snd (process_cold_start tracking_content ''12'' ''srv'' 9
        (init_state True)))) ''12_srv'' = Some \<lparr>line_count = 2, last_updated = 9\<rparr>"
    using cold_tracking(3) [of tracking_content "''12''" "''srv''" 9 "init_state True"]
    by (simp add: example_contents)
  have b: "emits (trace (snd (process_cold_start tracking_content ''12'' ''srv'' 9
        (init_state True)))) = []"
    by (simp add: process_cold_start_state save_persistent_state_fields emits_append
        emits_map_Scan init_state_def)
  have c: "player_lifecycle (snd (process_cold_start tracking_content ''12'' ''srv'' 9
        (init_state True))) = []"
       "player_sessions (snd (process_cold_start tracking_content ''12'' ''srv'' 9
        (init_state True))) = []"
    by (simp_all add: cold_tracking init_state_def)
  from a b c hot_tracking show ?thesis by (intro conjI) simp_all
qed

section \<open>Claims about the incremental line processor\<close>

text \<open>
  C4. In hot-start processing the new FileState, with \<open>line_count\<close> the current total,
  is written and \<open>_save_persistent_state\<close> is called before the first line is matched:
  what the cycle adds to the trace is the write, the save, and then only scans and
  appends; the embeds returned are exactly those appends; and the loop starts from the
  state that holds the new FileState (persisted too, when there is a database manager).
\<close>

theorem state_written_before_extraction:
  assumes "0 < stored_line_count s (guild_id @ ''_'' @ server_id)"
    and "stored_line_count s (guild_id @ ''_'' @ server_id) < length (splitlines content)"
  shows "\<exists>bs.
     trace (snd (parse_log_content content guild_id server_id now s)) =
       trace s @
         WriteFileState (guild_id @ ''_'' @ server_id) (length (splitlines content)) # SaveState # blocks bs
     \<and> fst (parse_log_content content guild_id server_id now s) = emits (blocks bs)
     \<and> map_of (file_states (snd (parse_log_content content guild_id server_id now s)))
           (guild_id @ ''_'' @ server_id)
         = Some \<lparr>line_count = length (splitlines content), last_updated = now\<rparr>
     \<and> (db_manager s \<longrightarrow>
           persisted (snd (parse_log_content content guild_id server_id now s))
             = Some (file_states (snd (parse_log_content content guild_id server_id now s))))
     \<and> parse_log_content content guild_id server_id now s =
           (\<lambda>st. (fst st, snd (snd st)))
             (process_lines guild_id
                (length (drop (stored_line_count s (guild_id @ ''_'' @ server_id)) (splitlines content)))
                now
                (drop (stored_line_count s (guild_id @ ''_'' @ server_id)) (splitlines content))
                ([], 0,
                 save_persistent_state
                   (s\<lparr>file_states :=
                        AList.update (guild_id @ ''_'' @ server_id)
                          \<lparr>line_count = length (splitlines content), last_updated = now\<rparr>
                          (file_states s),
                      trace := trace s @
                        [WriteFileState (guild_id @ ''_'' @ server_id) (length (splitlines content))]\<rparr>)))"
proof -
  let ?key = "guild_id @ ''_'' @ server_id"
  let ?T = "length (splitlines content)"
  let ?slice = "drop (stored_line_count s ?key) (splitlines content)"
  have run: "parse_log_content content guild_id server_id now s =
               write_and_extract guild_id ?key ?T now ?slice s"
    using assms(2) by (rule parse_log_content_slice)
  obtain bs rest s' where eff:
      "write_and_extract guild_id ?key ?T now ?slice s = (concat (map snd bs), s')"
      "trace s' = trace s @ WriteFileState ?key ?T # SaveState # blocks bs"
      "file_states s' = AList.update ?key \<lparr>line_count = ?T, last_updated = now\<rparr> (file_states s)"
      "persisted s' =
          (if db_manager s
           then Some (AList.update ?key \<lparr>line_count = ?T, last_updated = now\<rparr> (file_states s))
           else persisted s)"
    using write_and_extract_effect [of guild_id ?key ?T now ?slice s] by blast
  have loop: "write_and_extract guild_id ?key ?T now ?slice s =
           (\<lambda>st. (fst st, snd (snd st)))
             (process_lines guild_id (length ?slice) now ?slice
                ([], 0,
                 save_persistent_state
                   (s\<lparr>file_states :=
                        AList.update ?key \<lparr>line_count = ?T, last_updated = now\<rparr> (file_states s),
                      trace := trace s @ [WriteFileState ?key ?T]\<rparr>)))"
    by (simp add: write_and_extract_def Let_def)
  show ?thesis
    by (rule exI [of _ bs])
       (use eff loop in \<open>simp add: run emits_blocks update_conv'\<close>)
qed

theorem state_written_before_extraction_witness:
  "\<exists>bs.
     trace (snd (parse_log_content ready_content ''12'' ''srv'' 9 ((init_state True)\<lparr>file_states := [(''12_srv'', \<lparr>line_count = 1, last_updated = 5\<rparr>)]\<rparr>))) =
       trace ((init_state True)\<lparr>file_states := [(''12_srv'', \<lparr>line_count = 1, last_updated = 5\<rparr>)]\<rparr>) @
         WriteFileState (''12'' @ ''_'' @ ''srv'') (length (splitlines ready_content)) # SaveState # blocks bs
     \<and> fst (parse_log_content ready_content ''12'' ''srv'' 9 ((init_state True)\<lparr>file_states := [(''12_srv'', \<lparr>line_count = 1, last_updated = 5\<rparr>)]\<rparr>)) = emits (blocks bs)
     \<and> map_of (file_states (snd (parse_log_content ready_content ''12'' ''srv'' 9 ((init_state True)\<lparr>file_states := [(''12_srv'', \<lparr>line_count = 1, last_updated = 5\<rparr>)]\<rparr>))))
           (''12'' @ ''_'' @ ''srv'')
         = Some \<lparr>line_count = length (splitlines ready_content), last_updated = 9\<rparr>
     \<and> (db_manager ((init_state True)\<lparr>file_states := [(''12_srv'', \<lparr>line_count = 1, last_updated = 5\<rparr>)]\<rparr>) \<longrightarrow>
           persisted (snd (parse_log_content ready_content ''12'' ''srv'' 9 ((init_state True)\<lparr>file_states := [(''12_srv'', \<lparr>line_count = 1, last_updated = 5\<rparr>)]\<rparr>)))
             = Some (file_states (snd (parse_log_content ready_content ''12'' ''srv'' 9 ((init_state True)\<lparr>file_states := [(''12_srv'', \<lparr>line_count = 1, last_updated = 5\<rparr>)]\<rparr>)))))
     \<and> parse_log_content ready_content ''12'' ''srv'' 9 ((init_state True)\<lparr>file_states := [(''12_srv'', \<lparr>line_count = 1, last_updated = 5\<rparr>)]\<rparr>) =
           (\<lambda>st. (fst st, snd (snd st)))
             (process_lines ''12''
                (length (drop (stored_line_count ((init_state True)\<lparr>file_states := [(''12_srv'', \<lparr>line_count = 1, last_updated = 5\<rparr>)]\<rparr>) (''12'' @ ''_'' @ ''srv'')) (splitlines ready_content)))
                9
                (drop (stored_line_count ((init_state True)\<lparr>file_states := [(''12_srv'', \<lparr>line_count = 1, last_updated = 5\<rparr>)]\<rparr>) (''12'' @ ''_'' @ ''srv'')) (splitlines ready_content))
                ([], 0,
                 save_persistent_state
                   (((init_state True)\<lparr>file_states := [(''12_srv'', \<lparr>line_count = 1, last_updated = 5\<rparr>)]\<rparr>)\<lparr>file_states :=
                        AList.update (''12'' @ ''_'' @ ''srv'')
                          \<lparr>line_count = length (splitlines ready_content), last_updated = 9\<rparr>
                          (file_states ((init_state True)\<lparr>file_states := [(''12_srv'', \<lparr>line_count = 1, last_updated = 5\<rparr>)]\<rparr>)),
                      trace := trace ((init_state True)\<lparr>file_states := [(''12_srv'', \<lparr>line_count = 1, last_updated = 5\<rparr>)]\<rparr>) @
                        [WriteFileState (''12'' @ ''_'' @ ''srv'') (length (splitlines ready_content))]\<rparr>)))"
proof -
  let ?s = "((init_state True)\<lparr>file_states := [(''12_srv'', \<lparr>line_count = 1, last_updated = 5\<rparr>)]\<rparr>)"
  have hot: "0 < stored_line_count ?s (''12'' @ ''_'' @ ''srv'')"
    by (simp add: stored_line_count_def)
  have more: "stored_line_count ?s (''12'' @ ''_'' @ ''srv'') < length (splitlines ready_content)"
    by (simp add: stored_line_count_def example_contents)
  show ?thesis
    by (rule state_written_before_extraction [OF hot more])
qed











end
